theory Spec2Isabelle
  imports Complex_Main "HOL-Library.Word" "HOL-Library.AList" "HOL-Library.Log_Nat"
begin

unbundle bit_operations_syntax

section \<open>Bytes, hexadecimal text and big integers\<close>

text \<open>
  A request payload travels as the text \<open>0x\<close> followed by two hexadecimal digits per byte.
  Both decoders of the program (\<open>fromHex\<close> of viem and \<open>getBytes\<close> of ethers) turn such a
  text into the same byte array, so a payload is modelled as the byte array it denotes
  (a \<open>Uint8Array\<close>). JavaScript strings are modelled by their UTF-8 bytes, one \<open>char\<close> each.
\<close>

type_synonym byte = "8 word"

definition stringToBytes :: "string \<Rightarrow> byte list" where
  "stringToBytes s = map (\<lambda>c. of_char c) s"

definition hex_digit :: "nat \<Rightarrow> char" where
  "hex_digit n = ''0123456789abcdef'' ! (n mod 16)"

text \<open>\<open>ethers.hexlify\<close>: lower-case digits behind \<open>0x\<close>.\<close>

definition hexlify :: "byte list \<Rightarrow> string" where
  "hexlify bs = ''0x'' @ concat (map (\<lambda>b. [hex_digit (unat b div 16), hex_digit (unat b mod 16)]) bs)"

text \<open>The unsigned big-endian value of a byte array, as \<open>BigInt\<close> reads the digits of \<open>hexlify\<close>.\<close>

definition be_uint :: "byte list \<Rightarrow> int" where
  "be_uint bs = foldl (\<lambda>acc b. acc * 256 + uint b) 0 bs"

section \<open>Keccak-256 and checksummed addresses\<close>

definition keccak_rc :: "64 word list" where
  "keccak_rc = [0x0000000000000001, 0x0000000000008082, 0x800000000000808a, 0x8000000080008000,
    0x000000000000808b, 0x0000000080000001, 0x8000000080008081, 0x8000000000008009,
    0x000000000000008a, 0x0000000000000088, 0x0000000080008009, 0x000000008000000a,
    0x000000008000808b, 0x800000000000008b, 0x8000000000008089, 0x8000000000008003,
    0x8000000000008002, 0x8000000000000080, 0x000000000000800a, 0x800000008000000a,
    0x8000000080008081, 0x8000000000008080, 0x0000000080000001, 0x8000000080008008]"

text \<open>For every lane of the state after the steps rho and pi: the lane it comes from, and its rotation.\<close>

definition rho_pi_src :: "nat list" where
  "rho_pi_src = [0, 6, 12, 18, 24, 3, 9, 10, 16, 22, 1, 7, 13, 19, 20, 4, 5, 11, 17, 23, 2, 8, 14, 15, 21]"

definition rho_pi_rot :: "nat list" where
  "rho_pi_rot = [0, 44, 43, 21, 14, 28, 20, 3, 45, 61, 1, 6, 25, 8, 18, 27, 36, 10, 15, 56, 62, 55, 39, 41, 2]"

definition theta :: "64 word list \<Rightarrow> 64 word list" where
  "theta st =
     (let c = map (\<lambda>x. st ! x XOR st ! (x + 5) XOR st ! (x + 10) XOR st ! (x + 15) XOR st ! (x + 20)) [0..<5];
          d = map (\<lambda>x. c ! ((x + 4) mod 5) XOR word_rotl 1 (c ! ((x + 1) mod 5))) [0..<5]
      in map (\<lambda>i. st ! i XOR d ! (i mod 5)) [0..<25])"

definition rho_pi :: "64 word list \<Rightarrow> 64 word list" where
  "rho_pi st = map (\<lambda>j. word_rotl (rho_pi_rot ! j) (st ! (rho_pi_src ! j))) [0..<25]"

definition chi :: "64 word list \<Rightarrow> 64 word list" where
  "chi st = map (\<lambda>i. let y = 5 * (i div 5); x = i mod 5
                      in st ! i XOR (NOT (st ! (y + (x + 1) mod 5)) AND st ! (y + (x + 2) mod 5))) [0..<25]"

definition keccak_round :: "64 word list \<Rightarrow> 64 word \<Rightarrow> 64 word list" where
  "keccak_round st rc = (let s = chi (rho_pi (theta st)) in s[0 := s ! 0 XOR rc])"

definition keccak_f :: "64 word list \<Rightarrow> 64 word list" where
  "keccak_f st = foldl keccak_round st keccak_rc"

definition pad101 :: "byte list \<Rightarrow> byte list" where
  "pad101 msg = (let k = 136 - length msg mod 136
                 in if k = 1 then msg @ [0x81] else msg @ [0x01] @ replicate (k - 2) 0 @ [0x80])"

definition le_lane :: "byte list \<Rightarrow> 64 word" where
  "le_lane bs = foldr (\<lambda>b acc. ucast b OR push_bit 8 acc) bs 0"

definition lane_bytes :: "64 word \<Rightarrow> byte list" where
  "lane_bytes w = map (\<lambda>i. ucast (drop_bit (8 * i) w)) [0..<8]"

definition xor_block :: "64 word list \<Rightarrow> byte list \<Rightarrow> 64 word list" where
  "xor_block st blk =
     map (\<lambda>i. if i < 17 then st ! i XOR le_lane (take 8 (drop (8 * i) blk)) else st ! i) [0..<25]"

function absorb :: "64 word list \<Rightarrow> byte list \<Rightarrow> 64 word list" where
  "absorb st bs = (if bs = [] then st else absorb (keccak_f (xor_block st (take 136 bs))) (drop 136 bs))"
  by pat_completeness auto
termination
  by (relation "measure (\<lambda>(st, bs). length bs)") auto

definition keccak256 :: "byte list \<Rightarrow> byte list" where
  "keccak256 msg = take 32 (concat (map lane_bytes (absorb (replicate 25 0) (pad101 msg))))"

text \<open>
  \<open>getAddress\<close> of viem: the text must match \<open>/^0x[a-fA-F0-9]{40}$/\<close>; the result keeps the
  digits and writes the letter at position \<open>i\<close> in upper case when the \<open>i\<close>-th half-byte of the
  Keccak-256 hash of the lower-case digits is at least 8, in lower case otherwise.
\<close>

definition is_hex_char :: "char \<Rightarrow> bool" where
  "is_hex_char c = (c \<in> set ''0123456789abcdefABCDEF'')"

definition isAddress :: "string \<Rightarrow> bool" where
  "isAddress s = (length s = 42 \<and> take 2 s = ''0x'' \<and> list_all is_hex_char (drop 2 s))"

definition toLowerCase :: "char \<Rightarrow> char" where
  "toLowerCase c = (let n = (of_char c :: nat) in if 65 \<le> n \<and> n \<le> 90 then char_of (n + 32) else c)"

definition toUpperCase :: "char \<Rightarrow> char" where
  "toUpperCase c = (let n = (of_char c :: nat) in if 97 \<le> n \<and> n \<le> 122 then char_of (n - 32) else c)"

definition hash_nibble :: "byte list \<Rightarrow> nat \<Rightarrow> nat" where
  "hash_nibble h i = (if even i then unat (h ! (i div 2)) div 16 else unat (h ! (i div 2)) mod 16)"

definition checksumAddress :: "string \<Rightarrow> string" where
  "checksumAddress s =
     (let hexAddress = map toLowerCase (drop 2 s);
          hash = keccak256 (stringToBytes hexAddress)
      in ''0x'' @ map (\<lambda>i. if 8 \<le> hash_nibble hash i then toUpperCase (hexAddress ! i) else hexAddress ! i)
                     [0..<40])"

datatype error =
    SyntaxError
  | TypeError
  | InvalidAddressError
  | PayloadTooShort
  | NumericFault
  | MissingRecipientOrAmount
  | AddressExtractionFailed
  | MissingSenderOrAmount
  | MissingFromToOrAmount
  | InsufficientBalance
  | ErrorParsingDeposit error

definition getAddress :: "string \<Rightarrow> error + string" where
  "getAddress s = (if isAddress s then Inr (checksumAddress s) else Inl InvalidAddressError)"

section \<open>JavaScript numbers\<close>

text \<open>
  A \<open>Number\<close> is an IEEE 754 binary64 value: not-a-number, an infinity, or a finite value, kept
  here as the rational it denotes (the two zeros are one value: the program never tells them
  apart). \<open>fl\<close> rounds a rational to the nearest such value, ties to the even significand.
\<close>

datatype jsnum = NaN | PosInf | NegInf | Fin rat

definition pow2 :: "int \<Rightarrow> rat" where
  "pow2 k = (if 0 \<le> k then 2 ^ nat k else 1 / 2 ^ nat (- k))"

definition ilog2 :: "rat \<Rightarrow> int" where
  "ilog2 a = (let (p, d) = quotient_of a; k = bitlen p - bitlen d in if pow2 k \<le> a then k else k - 1)"

definition round_half_even :: "rat \<Rightarrow> int" where
  "round_half_even x =
     (let f = \<lfloor>x\<rfloor>; r = x - of_int f
      in if r < 1 / 2 then f else if 1 / 2 < r then f + 1 else if even f then f else f + 1)"

definition fl :: "rat \<Rightarrow> jsnum" where
  "fl q =
     (if q = 0 then Fin 0
      else let a = \<bar>q\<bar>;
               e = max (ilog2 a) (- 1022);
               u = pow2 (e - 52);
               r = of_int (round_half_even (a / u)) * u
           in if pow2 1024 \<le> r then (if 0 < q then PosInf else NegInf)
              else Fin (if 0 < q then r else - r))"

definition js_add :: "jsnum \<Rightarrow> jsnum \<Rightarrow> jsnum" where
  "js_add a b =
     (case (a, b) of
        (Fin x, Fin y) \<Rightarrow> fl (x + y)
      | (NaN, _) \<Rightarrow> NaN
      | (_, NaN) \<Rightarrow> NaN
      | (PosInf, NegInf) \<Rightarrow> NaN
      | (NegInf, PosInf) \<Rightarrow> NaN
      | (PosInf, _) \<Rightarrow> PosInf
      | (NegInf, _) \<Rightarrow> NegInf
      | (_, PosInf) \<Rightarrow> PosInf
      | (_, NegInf) \<Rightarrow> NegInf)"

definition js_neg :: "jsnum \<Rightarrow> jsnum" where
  "js_neg a = (case a of NaN \<Rightarrow> NaN | PosInf \<Rightarrow> NegInf | NegInf \<Rightarrow> PosInf | Fin x \<Rightarrow> Fin (- x))"

definition js_sub :: "jsnum \<Rightarrow> jsnum \<Rightarrow> jsnum" where
  "js_sub a b = js_add a (js_neg b)"

text \<open>The comparison \<open>a < b\<close> of two numbers: false as soon as one of them is not a number.\<close>

definition js_lt :: "jsnum \<Rightarrow> jsnum \<Rightarrow> bool" where
  "js_lt a b =
     (case (a, b) of
        (Fin x, Fin y) \<Rightarrow> x < y
      | (NaN, _) \<Rightarrow> False
      | (_, NaN) \<Rightarrow> False
      | (NegInf, NegInf) \<Rightarrow> False
      | (NegInf, _) \<Rightarrow> True
      | (_, NegInf) \<Rightarrow> False
      | (PosInf, _) \<Rightarrow> False
      | (_, PosInf) \<Rightarrow> True)"

definition num_truthy :: "jsnum \<Rightarrow> bool" where
  "num_truthy n = (n \<noteq> NaN \<and> n \<noteq> Fin 0)"

section \<open>Text decoding and JSON\<close>

text \<open>
  \<open>TextDecoder.decode\<close> (not fatal): every maximal ill-formed part of the input becomes the
  replacement character U+FFFD, and a byte order mark at the start is dropped.
\<close>

record utf8_state =
  needed :: nat
  lower :: nat
  upper :: nat
  pending :: "byte list"
  out :: "byte list"

definition utf8_replacement :: "byte list" where
  "utf8_replacement = [0xEF, 0xBF, 0xBD]"

definition utf8_lead :: "byte list \<Rightarrow> byte \<Rightarrow> utf8_state" where
  "utf8_lead done b =
     (let n = unat b in
      if n \<le> 0x7F then \<lparr>needed = 0, lower = 0x80, upper = 0xBF, pending = [], out = done @ [b]\<rparr>
      else if 0xC2 \<le> n \<and> n \<le> 0xDF then \<lparr>needed = 1, lower = 0x80, upper = 0xBF, pending = [b], out = done\<rparr>
      else if 0xE0 \<le> n \<and> n \<le> 0xEF then
        \<lparr>needed = 2, lower = (if n = 0xE0 then 0xA0 else 0x80), upper = (if n = 0xED then 0x9F else 0xBF),
         pending = [b], out = done\<rparr>
      else if 0xF0 \<le> n \<and> n \<le> 0xF4 then
        \<lparr>needed = 3, lower = (if n = 0xF0 then 0x90 else 0x80), upper = (if n = 0xF4 then 0x8F else 0xBF),
         pending = [b], out = done\<rparr>
      else \<lparr>needed = 0, lower = 0x80, upper = 0xBF, pending = [], out = done @ utf8_replacement\<rparr>)"

definition utf8_step :: "utf8_state \<Rightarrow> byte \<Rightarrow> utf8_state" where
  "utf8_step s b =
     (if needed s = 0 then utf8_lead (out s) b
      else if lower s \<le> unat b \<and> unat b \<le> upper s then
        (if needed s = 1
         then \<lparr>needed = 0, lower = 0x80, upper = 0xBF, pending = [], out = out s @ pending s @ [b]\<rparr>
         else \<lparr>needed = needed s - 1, lower = 0x80, upper = 0xBF, pending = pending s @ [b], out = out s\<rparr>)
      else utf8_lead (out s @ utf8_replacement) b)"

definition utf8_decode :: "byte list \<Rightarrow> byte list" where
  "utf8_decode bs =
     (let s = foldl utf8_step \<lparr>needed = 0, lower = 0x80, upper = 0xBF, pending = [], out = []\<rparr> bs;
          t = (if needed s = 0 then out s else out s @ utf8_replacement)
      in if take 3 t = [0xEF, 0xBB, 0xBF] then drop 3 t else t)"

text \<open>\<open>fromHex(payload, "string")\<close>, alias \<open>hexToString\<close>.\<close>

definition hexToString :: "byte list \<Rightarrow> string" where
  "hexToString bs = map (\<lambda>b. char_of (unat b)) (utf8_decode bs)"

text \<open>The values \<open>JSON.parse\<close> returns. An object keeps its members in the order of the text.\<close>

datatype json =
    JNull
  | JBool bool
  | JNum jsnum
  | JStr string
  | JArr "json list"
  | JObj "(string \<times> json) list"

text \<open>
  \<open>JSON.parse\<close>, as a pushdown automaton that reads the text one character at a time. A string
  is collected as raw characters and the UTF-16 units of its \<open>\u\<close> escapes; two units that form a
  surrogate pair are one code point.
\<close>

datatype piece = Raw char | Unit nat

definition utf8_encode :: "nat \<Rightarrow> string" where
  "utf8_encode cp =
     (if cp < 0x80 then [char_of cp]
      else if cp < 0x800 then [char_of (0xC0 + cp div 64), char_of (0x80 + cp mod 64)]
      else if cp < 0x10000 then
        [char_of (0xE0 + cp div 4096), char_of (0x80 + cp div 64 mod 64), char_of (0x80 + cp mod 64)]
      else [char_of (0xF0 + cp div 262144), char_of (0x80 + cp div 4096 mod 64),
            char_of (0x80 + cp div 64 mod 64), char_of (0x80 + cp mod 64)])"

fun assemble :: "piece list \<Rightarrow> string" where
  "assemble [] = []"
| "assemble (Raw c # ps) = c # assemble ps"
| "assemble (Unit hi # Unit lo # ps) =
     (if 0xD800 \<le> hi \<and> hi \<le> 0xDBFF \<and> 0xDC00 \<le> lo \<and> lo \<le> 0xDFFF
      then utf8_encode (0x10000 + (hi - 0xD800) * 1024 + (lo - 0xDC00)) @ assemble ps
      else utf8_encode hi @ assemble (Unit lo # ps))"
| "assemble (Unit u # ps) = utf8_encode u @ assemble ps"

datatype strstate = SNormal | SEscape | SUnicode "nat list"

datatype numstate = NMinus | NZero | NInt | NDot | NFrac | NExp | NExpSign | NExpDigits

datatype frame = FArr "json list" | FObj "(string \<times> json) list" string

datatype mode =
    MValue
  | MValueOrEnd
  | MKeyOrEnd
  | MKey
  | MColon
  | MAfter
  | MDone json
  | MStr bool "piece list" strstate
  | MNum numstate bool int int bool int
  | MLit string json

type_synonym pstate = "mode \<times> frame list"

definition is_ws :: "char \<Rightarrow> bool" where
  "is_ws c = (c = CHR '' '' \<or> c = CHR 0x09 \<or> c = CHR 0x0A \<or> c = CHR 0x0D)"

definition digit_val :: "char \<Rightarrow> int option" where
  "digit_val c = (let n = (of_char c :: int) in if 48 \<le> n \<and> n \<le> 57 then Some (n - 48) else None)"

definition hex_val :: "char \<Rightarrow> nat option" where
  "hex_val c =
     (let n = (of_char c :: nat) in
      if 48 \<le> n \<and> n \<le> 57 then Some (n - 48)
      else if 97 \<le> n \<and> n \<le> 102 then Some (n - 87)
      else if 65 \<le> n \<and> n \<le> 70 then Some (n - 55)
      else None)"

definition pow10 :: "int \<Rightarrow> rat" where
  "pow10 k = (if 0 \<le> k then 10 ^ nat k else 1 / 10 ^ nat (- k))"

text \<open>The number a literal denotes: sign, all its digits, how many of them are behind the point, exponent.\<close>

definition number_value :: "bool \<Rightarrow> int \<Rightarrow> int \<Rightarrow> bool \<Rightarrow> int \<Rightarrow> jsnum" where
  "number_value neg m fd eneg e =
     fl ((if neg then - 1 else 1) * of_int m * pow10 ((if eneg then - e else e) - fd))"

definition after_value :: "frame list \<Rightarrow> json \<Rightarrow> pstate" where
  "after_value st v =
     (case st of
        [] \<Rightarrow> (MDone v, [])
      | FArr xs # r \<Rightarrow> (MAfter, FArr (xs @ [v]) # r)
      | FObj kvs k # r \<Rightarrow> (MAfter, FObj (kvs @ [(k, v)]) k # r))"

definition start_value :: "frame list \<Rightarrow> char \<Rightarrow> pstate option" where
  "start_value st c =
     (if c = CHR ''{'' then Some (MKeyOrEnd, FObj [] [] # st)
      else if c = CHR ''['' then Some (MValueOrEnd, FArr [] # st)
      else if c = CHR 0x22 then Some (MStr False [] SNormal, st)
      else if c = CHR ''-'' then Some (MNum NMinus True 0 0 False 0, st)
      else if c = CHR ''0'' then Some (MNum NZero False 0 0 False 0, st)
      else if c = CHR ''t'' then Some (MLit ''rue'' (JBool True), st)
      else if c = CHR ''f'' then Some (MLit ''alse'' (JBool False), st)
      else if c = CHR ''n'' then Some (MLit ''ull'' JNull, st)
      else (case digit_val c of Some d \<Rightarrow> Some (MNum NInt False d 0 False 0, st) | None \<Rightarrow> None))"

definition string_step :: "bool \<Rightarrow> piece list \<Rightarrow> strstate \<Rightarrow> frame list \<Rightarrow> char \<Rightarrow> pstate option" where
  "string_step key acc ss st c =
     (case ss of
        SNormal \<Rightarrow>
          if c = CHR 0x22 then
            (if key then
               (case st of FObj kvs k # r \<Rightarrow> Some (MColon, FObj kvs (assemble acc) # r) | _ \<Rightarrow> None)
             else Some (after_value st (JStr (assemble acc))))
          else if c = CHR 0x5C then Some (MStr key acc SEscape, st)
          else if (of_char c :: nat) < 0x20 then None
          else Some (MStr key (acc @ [Raw c]) SNormal, st)
      | SEscape \<Rightarrow>
          if c = CHR 0x22 \<or> c = CHR 0x5C \<or> c = CHR ''/'' then Some (MStr key (acc @ [Raw c]) SNormal, st)
          else if c = CHR ''b'' then Some (MStr key (acc @ [Raw (CHR 0x08)]) SNormal, st)
          else if c = CHR ''f'' then Some (MStr key (acc @ [Raw (CHR 0x0C)]) SNormal, st)
          else if c = CHR ''n'' then Some (MStr key (acc @ [Raw (CHR 0x0A)]) SNormal, st)
          else if c = CHR ''r'' then Some (MStr key (acc @ [Raw (CHR 0x0D)]) SNormal, st)
          else if c = CHR ''t'' then Some (MStr key (acc @ [Raw (CHR 0x09)]) SNormal, st)
          else if c = CHR ''u'' then Some (MStr key acc (SUnicode []), st)
          else None
      | SUnicode ds \<Rightarrow>
          (case hex_val c of
             None \<Rightarrow> None
           | Some d \<Rightarrow>
               if length ds = 3
               then Some (MStr key (acc @ [Unit (foldl (\<lambda>a x. a * 16 + x) 0 (ds @ [d]))]) SNormal, st)
               else Some (MStr key acc (SUnicode (ds @ [d])), st)))"

text \<open>One character in every mode but that of a number.\<close>

definition step_simple :: "pstate \<Rightarrow> char \<Rightarrow> pstate option" where
  "step_simple s c =
     (case s of (m, st) \<Rightarrow>
        (case m of
           MValue \<Rightarrow> if is_ws c then Some s else start_value st c
         | MValueOrEnd \<Rightarrow>
             if is_ws c then Some s
             else if c = CHR '']'' then
               (case st of FArr xs # r \<Rightarrow> Some (after_value r (JArr xs)) | _ \<Rightarrow> None)
             else start_value st c
         | MKeyOrEnd \<Rightarrow>
             if is_ws c then Some s
             else if c = CHR ''}'' then
               (case st of FObj kvs k # r \<Rightarrow> Some (after_value r (JObj kvs)) | _ \<Rightarrow> None)
             else if c = CHR 0x22 then Some (MStr True [] SNormal, st)
             else None
         | MKey \<Rightarrow>
             if is_ws c then Some s
             else if c = CHR 0x22 then Some (MStr True [] SNormal, st)
             else None
         | MColon \<Rightarrow> if is_ws c then Some s else if c = CHR '':'' then Some (MValue, st) else None
         | MAfter \<Rightarrow>
             if is_ws c then Some s
             else (case st of
                     FArr xs # r \<Rightarrow>
                       if c = CHR '','' then Some (MValue, st)
                       else if c = CHR '']'' then Some (after_value r (JArr xs))
                       else None
                   | FObj kvs k # r \<Rightarrow>
                       if c = CHR '','' then Some (MKey, st)
                       else if c = CHR ''}'' then Some (after_value r (JObj kvs))
                       else None
                   | [] \<Rightarrow> None)
         | MDone v \<Rightarrow> if is_ws c then Some s else None
         | MStr key acc ss \<Rightarrow> string_step key acc ss st c
         | MLit rest v \<Rightarrow>
             (case rest of
                [] \<Rightarrow> None
              | r # rs \<Rightarrow>
                  if c = r then (if rs = [] then Some (after_value st v) else Some (MLit rs v, st))
                  else None)
         | MNum ns neg mant fd eneg e \<Rightarrow> None))"

definition num_accepting :: "numstate \<Rightarrow> bool" where
  "num_accepting ns = (ns = NZero \<or> ns = NInt \<or> ns = NFrac \<or> ns = NExpDigits)"

text \<open>A character that continues the number literal; \<open>None\<close> when it does not belong to it.\<close>

definition num_continue :: "numstate \<Rightarrow> bool \<Rightarrow> int \<Rightarrow> int \<Rightarrow> bool \<Rightarrow> int \<Rightarrow> char \<Rightarrow> mode option" where
  "num_continue ns neg mant fd eneg e c =
     (let d = digit_val c; is_e = (c = CHR ''e'' \<or> c = CHR ''E'') in
      case ns of
        NMinus \<Rightarrow>
          (case d of Some x \<Rightarrow> Some (MNum (if x = 0 then NZero else NInt) neg x fd eneg e) | None \<Rightarrow> None)
      | NZero \<Rightarrow>
          if c = CHR ''.'' then Some (MNum NDot neg mant fd eneg e)
          else if is_e then Some (MNum NExp neg mant fd eneg e) else None
      | NInt \<Rightarrow>
          (case d of
             Some x \<Rightarrow> Some (MNum NInt neg (mant * 10 + x) fd eneg e)
           | None \<Rightarrow>
               if c = CHR ''.'' then Some (MNum NDot neg mant fd eneg e)
               else if is_e then Some (MNum NExp neg mant fd eneg e) else None)
      | NDot \<Rightarrow>
          (case d of Some x \<Rightarrow> Some (MNum NFrac neg (mant * 10 + x) (fd + 1) eneg e) | None \<Rightarrow> None)
      | NFrac \<Rightarrow>
          (case d of
             Some x \<Rightarrow> Some (MNum NFrac neg (mant * 10 + x) (fd + 1) eneg e)
           | None \<Rightarrow> if is_e then Some (MNum NExp neg mant fd eneg e) else None)
      | NExp \<Rightarrow>
          (case d of
             Some x \<Rightarrow> Some (MNum NExpDigits neg mant fd eneg x)
           | None \<Rightarrow>
               if c = CHR ''+'' then Some (MNum NExpSign neg mant fd False e)
               else if c = CHR ''-'' then Some (MNum NExpSign neg mant fd True e) else None)
      | NExpSign \<Rightarrow>
          (case d of Some x \<Rightarrow> Some (MNum NExpDigits neg mant fd eneg x) | None \<Rightarrow> None)
      | NExpDigits \<Rightarrow>
          (case d of Some x \<Rightarrow> Some (MNum NExpDigits neg mant fd eneg (e * 10 + x)) | None \<Rightarrow> None))"

definition step :: "pstate \<Rightarrow> char \<Rightarrow> pstate option" where
  "step s c =
     (case s of
        (MNum ns neg mant fd eneg e, st) \<Rightarrow>
          (case num_continue ns neg mant fd eneg e c of
             Some m \<Rightarrow> Some (m, st)
           | None \<Rightarrow>
               if num_accepting ns
               then step_simple (after_value st (JNum (number_value neg mant fd eneg e))) c
               else None)
      | _ \<Rightarrow> step_simple s c)"

fun run :: "pstate \<Rightarrow> string \<Rightarrow> pstate option" where
  "run s [] = Some s"
| "run s (c # cs) = (case step s c of None \<Rightarrow> None | Some s' \<Rightarrow> run s' cs)"

definition finish :: "pstate \<Rightarrow> json option" where
  "finish s =
     (case s of
        (MDone v, st) \<Rightarrow> Some v
      | (MNum ns neg mant fd eneg e, []) \<Rightarrow>
          if num_accepting ns then Some (JNum (number_value neg mant fd eneg e)) else None
      | _ \<Rightarrow> None)"

text \<open>\<open>None\<close> stands for the \<open>SyntaxError\<close> that \<open>JSON.parse\<close> throws.\<close>

definition JSON_parse :: "string \<Rightarrow> json option" where
  "JSON_parse s = (case run (MValue, []) s of None \<Rightarrow> None | Some s \<Rightarrow> finish s)"

text \<open>
  How the program looks at a parsed value: its truth value, whether \<open>typeof\<close> gives
  \<open>"object"\<close>, and the value of a property (\<open>None\<close> is \<open>undefined\<close>). Of two members with
  the same key the later one counts. The property names the program reads are not members
  of any prototype, so only an object's own members answer.
\<close>

definition truthy :: "json \<Rightarrow> bool" where
  "truthy v =
     (case v of
        JNull \<Rightarrow> False
      | JBool b \<Rightarrow> b
      | JNum n \<Rightarrow> num_truthy n
      | JStr s \<Rightarrow> s \<noteq> []
      | JArr xs \<Rightarrow> True
      | JObj kvs \<Rightarrow> True)"

definition truthy_opt :: "json option \<Rightarrow> bool" where
  "truthy_opt v = (case v of None \<Rightarrow> False | Some x \<Rightarrow> truthy x)"

definition typeof_object :: "json \<Rightarrow> bool" where
  "typeof_object v = (case v of JNull \<Rightarrow> True | JArr xs \<Rightarrow> True | JObj kvs \<Rightarrow> True | _ \<Rightarrow> False)"

definition get :: "json \<Rightarrow> string \<Rightarrow> json option" where
  "get v k = (case v of JObj kvs \<Rightarrow> map_of (rev kvs) k | _ \<Rightarrow> None)"

section \<open>The ledger and the outputs\<close>

text \<open>
  \<open>balances\<close> is an object used as a dictionary: the keys in the order of their first
  assignment, each with its value. A message is kept by its kind and its arguments, not as
  the text the program formats from them.
\<close>

datatype status = Accept | Reject

datatype message =
    DepositOK string int
  | VoucherIssued string int
  | LoserHasNoBalance string
  | UnrecognizedJSON string
  | BalanceOf json "int option"
  | SenderDepositOK string "jsnum option"
  | TransferOK string string jsnum
  | NumberBalanceOf json "jsnum option"
  | ErrorMessage error

datatype event = Notice message | Report message | Voucher string int

type_synonym balances = "(string \<times> int) list"

text \<open>\<open>balances[k] || BigInt(0)\<close> for a key that is an address.\<close>

definition balance_of :: "balances \<Rightarrow> string \<Rightarrow> int" where
  "balance_of bal k = (case map_of bal k of None \<Rightarrow> 0 | Some v \<Rightarrow> v)"

record metadata =
  msg_sender :: string

record requestData =
  payload :: "byte list"
  metadata :: "metadata option"

section \<open>The node with settlement vouchers (file \<open>unnamed/part_000\<close>)\<close>

text \<open>
  \<open>ethers.toBeHex(amount, 32)\<close> refuses a negative value and one that does not fit 32 bytes;
  that happens before the voucher is posted.
\<close>

definition generateVoucher :: "string \<Rightarrow> int \<Rightarrow> error + event" where
  "generateVoucher recipient amount =
     (if 0 \<le> amount \<and> amount < 2 ^ 256 then Inr (Voucher recipient amount) else Inl NumericFault)"

definition parseDepositPayload :: "byte list \<Rightarrow> error + string \<times> int" where
  "parseDepositPayload bytes =
     (if length bytes < 52 then Inl (ErrorParsingDeposit PayloadTooShort)
      else let addressData = take 20 bytes;
               amountData = take 32 (drop 20 bytes)
           in case getAddress (hexlify addressData) of
                Inl e \<Rightarrow> Inl (ErrorParsingDeposit e)
              | Inr recipient \<Rightarrow> Inr (recipient, be_uint amountData))"

text \<open>The recipient is the result of \<open>getAddress\<close>; the amount is a \<open>BigInt\<close>, never \<open>null\<close>.\<close>

definition processDeposit :: "balances \<Rightarrow> string \<Rightarrow> int \<Rightarrow> error + balances" where
  "processDeposit bal recipient amount =
     (if recipient = [] then Inl MissingRecipientOrAmount
      else let bal1 = (if balance_of bal recipient = 0 then AList.update recipient 0 bal else bal)
           in Inr (AList.update recipient (balance_of bal1 recipient + amount) bal1))"

text \<open>
  \<open>getAddress\<close> applied to a parsed value. A value that is not a string is refused here. (viem
  reads an array around a single address as the text of that address, and what it answers
  then depends on the answers it has cached; the statements below on \<open>win\<close> and \<open>loss\<close> are
  about strings.)
\<close>

definition getAddress_of :: "json \<Rightarrow> error + string" where
  "getAddress_of v = (case v of JStr s \<Rightarrow> getAddress s | _ \<Rightarrow> Inl InvalidAddressError)"

text \<open>
  The branch of \<open>handleAdvance\<close> for a payload that parsed to an object. Every error of the
  branch is raised before the first output and before the first assignment to \<open>balances\<close>.
\<close>

definition advance_json :: "balances \<Rightarrow> string \<Rightarrow> json \<Rightarrow> error + balances \<times> event list" where
  "advance_json bal decodedString parsed =
     (case (get parsed ''win'', get parsed ''loss'') of
        (Some win, Some loss) \<Rightarrow>
          if truthy win \<and> truthy loss then
            (case getAddress_of win of
               Inl e \<Rightarrow> Inl e
             | Inr winner \<Rightarrow>
                 (case getAddress_of loss of
                    Inl e \<Rightarrow> Inl e
                  | Inr loser \<Rightarrow>
                      let loserBalance = balance_of bal loser in
                      if 0 < loserBalance then
                        (case generateVoucher winner loserBalance of
                           Inl e \<Rightarrow> Inl e
                         | Inr voucher \<Rightarrow>
                             Inr (AList.update loser 0 bal,
                                  [voucher, Notice (VoucherIssued winner loserBalance)]))
                      else Inr (bal, [Report (LoserHasNoBalance loser)])))
          else Inr (bal, [Report (UnrecognizedJSON decodedString)])
      | _ \<Rightarrow> Inr (bal, [Report (UnrecognizedJSON decodedString)]))"

text \<open>The other branch: the payload is taken for a deposit.\<close>

definition advance_deposit :: "balances \<Rightarrow> requestData \<Rightarrow> error + balances \<times> event list" where
  "advance_deposit bal requestData =
     (case parseDepositPayload (payload requestData) of
        Inl e \<Rightarrow> Inl e
      | Inr (recipient, amount) \<Rightarrow>
          (case metadata requestData of
             None \<Rightarrow> Inl TypeError
           | Some md \<Rightarrow>
               (case processDeposit bal recipient amount of
                  Inl e \<Rightarrow> Inl e
                | Inr bal' \<Rightarrow> Inr (bal', [Notice (DepositOK recipient (balance_of bal' recipient))]))))"

definition is_json_object :: "json option \<Rightarrow> bool" where
  "is_json_object parsed = (case parsed of None \<Rightarrow> False | Some p \<Rightarrow> truthy p \<and> typeof_object p)"

definition handleAdvance :: "balances \<Rightarrow> requestData \<Rightarrow> status \<times> balances \<times> event list" where
  "handleAdvance bal requestData =
     (let decodedString = hexToString (payload requestData);
          parsed = JSON_parse decodedString;
          outcome = (case parsed of
                       Some p \<Rightarrow>
                         if truthy p \<and> typeof_object p then advance_json bal decodedString p
                         else advance_deposit bal requestData
                     | None \<Rightarrow> advance_deposit bal requestData)
      in case outcome of
           Inr (bal', events) \<Rightarrow> (Accept, bal', events)
         | Inl err \<Rightarrow> (Reject, bal, [Report (ErrorMessage err)]))"

text \<open>
  Names every object inherits: under one of them \<open>balances[user]\<close> is a member of
  \<open>Object.prototype\<close>, not a balance.
\<close>

definition prototype_keys :: "string list" where
  "prototype_keys = [''__proto__'', ''constructor'', ''hasOwnProperty'', ''isPrototypeOf'',
     ''propertyIsEnumerable'', ''toLocaleString'', ''toString'', ''valueOf'',
     ''__defineGetter__'', ''__defineSetter__'', ''__lookupGetter__'', ''__lookupSetter__'']"

text \<open>
  The balance a query reports for \<open>parsed.user\<close>: \<open>balances[user] || BigInt(0)\<close>. \<open>None\<close>: the
  report shows a text that is no balance (an inherited member), or the key is the text
  of a value that is not a string, which this development does not compute.
\<close>

definition reported_balance :: "balances \<Rightarrow> json \<Rightarrow> int option" where
  "reported_balance bal user =
     (case user of
        JStr k \<Rightarrow>
          (case map_of bal k of
             Some v \<Rightarrow> Some v
           | None \<Rightarrow> if k \<in> set prototype_keys then None else Some 0)
      | _ \<Rightarrow> None)"

definition handleInspect :: "balances \<Rightarrow> requestData \<Rightarrow> status \<times> event list" where
  "handleInspect bal requestData =
     (let decodedString = hexToString (payload requestData) in
      case JSON_parse decodedString of
        None \<Rightarrow> (Reject, [Report (ErrorMessage SyntaxError)])
      | Some JNull \<Rightarrow> (Reject, [Report (ErrorMessage TypeError)])
      | Some parsed \<Rightarrow>
          if get parsed ''action'' = Some (JStr ''balance'') \<and> truthy_opt (get parsed ''user'')
          then (case get parsed ''user'' of
                  Some user \<Rightarrow> (Accept, [Report (BalanceOf user (reported_balance bal user))])
                | None \<Rightarrow> (Accept, []))
          else (Accept, []))"

text \<open>
  The request loop, run against the answers the host gives to the successive calls of
  \<open>/finish\<close>: status 202 (no input yet), or a request with its type and data. The loop never
  ends by itself; the model follows it along any finite sequence of answers and lists the
  calls made to the host, the last one being the \<open>/finish\<close> that waits for the next answer.
\<close>

datatype finish_response = NoInput | Request string requestData

datatype call = Finish status | Emit event

fun mainLoop :: "status \<Rightarrow> balances \<Rightarrow> finish_response list \<Rightarrow> call list" where
  "mainLoop resultStatus bal [] = [Finish resultStatus]"
| "mainLoop resultStatus bal (NoInput # responses) = Finish resultStatus # mainLoop resultStatus bal responses"
| "mainLoop resultStatus bal (Request request_type data # responses) =
     Finish resultStatus #
     (if request_type = ''advance_state'' then
        (case handleAdvance bal data of
           (st, bal', events) \<Rightarrow> map Emit events @ mainLoop st bal' responses)
      else if request_type = ''inspect_state'' then
        (case handleInspect bal data of
           (st, events) \<Rightarrow> map Emit events @ mainLoop st bal responses)
      else mainLoop resultStatus bal responses)"

text \<open>The loop starts with the status \<open>"accept"\<close> and the empty ledger.\<close>

definition run_node :: "finish_response list \<Rightarrow> call list" where
  "run_node responses = mainLoop Accept [] responses"

section \<open>The node for deposits only (file \<open>src/index.js\<close>)\<close>

text \<open>
  \<open>processDeposit\<close>, \<open>handleInspect\<close> and \<open>mainLoop\<close> of this file are those of the node above,
  word for word. Its \<open>parseDepositPayload\<close> checks the length of the address only, and
  \<open>BigInt\<close> refuses the text \<open>0x\<close> of an empty amount.
\<close>

definition index_parseDepositPayload :: "byte list \<Rightarrow> error + string \<times> int" where
  "index_parseDepositPayload bytes =
     (let addressData = take 20 bytes;
          amountData = take 32 (drop 20 bytes)
      in if length addressData \<noteq> 20 then Inl (ErrorParsingDeposit AddressExtractionFailed)
         else case getAddress (hexlify addressData) of
                Inl e \<Rightarrow> Inl (ErrorParsingDeposit e)
              | Inr recipient \<Rightarrow>
                  if amountData = [] then Inl (ErrorParsingDeposit SyntaxError)
                  else Inr (recipient, be_uint amountData))"

definition index_handleAdvance :: "balances \<Rightarrow> requestData \<Rightarrow> status \<times> balances \<times> event list" where
  "index_handleAdvance bal requestData =
     (let outcome =
            (case metadata requestData of
               None \<Rightarrow> Inl TypeError
             | Some md \<Rightarrow>
                 (case index_parseDepositPayload (payload requestData) of
                    Inl e \<Rightarrow> Inl e
                  | Inr (recipient, amount) \<Rightarrow>
                      (case processDeposit bal recipient amount of
                         Inl e \<Rightarrow> Inl e
                       | Inr bal' \<Rightarrow>
                           Inr (bal', [Notice (DepositOK recipient (balance_of bal' recipient))]))))
      in case outcome of
           Inr (bal', events) \<Rightarrow> (Accept, bal', events)
         | Inl err \<Rightarrow> (Reject, bal, [Report (ErrorMessage err)]))"

section \<open>The node for JSON actions (file \<open>unnamed/part_001\<close>)\<close>

text \<open>
  Here a balance is a \<open>Number\<close> and every payload is JSON. The development covers the
  inputs whose \<open>sender\<close>, \<open>from\<close> and \<open>to\<close> are strings that name no inherited member and
  whose \<open>amount\<close> is a number; on the others (where JavaScript would first convert a value
  to a key or to a number) the functions below answer \<open>None\<close>.
\<close>

type_synonym number_balances = "(string \<times> jsnum) list"

text \<open>\<open>!balances[k]\<close>: no entry, zero or not-a-number.\<close>

definition no_balance :: "number_balances \<Rightarrow> string \<Rightarrow> bool" where
  "no_balance bal k = (case map_of bal k of None \<Rightarrow> True | Some v \<Rightarrow> \<not> num_truthy v)"

text \<open>\<open>balances[k] || 0\<close>.\<close>

definition number_balance_of :: "number_balances \<Rightarrow> string \<Rightarrow> jsnum" where
  "number_balance_of bal k = (case map_of bal k of None \<Rightarrow> Fin 0 | Some v \<Rightarrow> if num_truthy v then v else Fin 0)"

definition is_nullish :: "json option \<Rightarrow> bool" where
  "is_nullish v = (v = None \<or> v = Some JNull)"

definition actions_processDeposit :: "number_balances \<Rightarrow> json \<Rightarrow> (error + number_balances) option" where
  "actions_processDeposit bal parsed =
     (let sender = get parsed ''sender''; amount = get parsed ''amount'' in
      if \<not> truthy_opt sender \<or> is_nullish amount then Some (Inl MissingSenderOrAmount)
      else case (sender, amount) of
             (Some (JStr k), Some (JNum a)) \<Rightarrow>
               if k \<in> set prototype_keys then None
               else let bal1 = (if no_balance bal k then AList.update k (Fin 0) bal else bal)
                    in Some (Inr (AList.update k (js_add (number_balance_of bal1 k) a) bal1))
           | _ \<Rightarrow> None)"

definition actions_processTransfer :: "number_balances \<Rightarrow> json \<Rightarrow> (error + number_balances) option" where
  "actions_processTransfer bal parsed =
     (let from = get parsed ''from''; to = get parsed ''to''; amount = get parsed ''amount'' in
      if \<not> truthy_opt from \<or> \<not> truthy_opt to \<or> is_nullish amount then Some (Inl MissingFromToOrAmount)
      else case (from, to, amount) of
             (Some (JStr f), Some (JStr t), Some (JNum a)) \<Rightarrow>
               if f \<in> set prototype_keys \<or> t \<in> set prototype_keys then None
               else if no_balance bal f \<or> js_lt (number_balance_of bal f) a then Some (Inl InsufficientBalance)
               else let bal1 = AList.update f (js_sub (number_balance_of bal f) a) bal;
                        bal2 = (if no_balance bal1 t then AList.update t (Fin 0) bal1 else bal1)
                    in Some (Inr (AList.update t (js_add (number_balance_of bal2 t) a) bal2))
           | _ \<Rightarrow> None)"

definition actions_handleAdvance ::
  "number_balances \<Rightarrow> requestData \<Rightarrow> (status \<times> number_balances \<times> event list) option" where
  "actions_handleAdvance bal requestData =
     (let decodedString = hexToString (payload requestData) in
      case JSON_parse decodedString of
        None \<Rightarrow> Some (Reject, bal, [Report (ErrorMessage SyntaxError)])
      | Some JNull \<Rightarrow> Some (Reject, bal, [Report (ErrorMessage TypeError)])
      | Some parsed \<Rightarrow>
          if get parsed ''action'' = Some (JStr ''deposit'') then
            (case actions_processDeposit bal parsed of
               None \<Rightarrow> None
             | Some (Inl err) \<Rightarrow> Some (Reject, bal, [Report (ErrorMessage err)])
             | Some (Inr bal') \<Rightarrow>
                 (case get parsed ''sender'' of
                    Some (JStr k) \<Rightarrow>
                      Some (Accept, bal', [Notice (SenderDepositOK k (map_of bal' k))])
                  | _ \<Rightarrow> None))
          else if get parsed ''action'' = Some (JStr ''transfer'') then
            (case actions_processTransfer bal parsed of
               None \<Rightarrow> None
             | Some (Inl err) \<Rightarrow> Some (Reject, bal, [Report (ErrorMessage err)])
             | Some (Inr bal') \<Rightarrow>
                 (case (get parsed ''from'', get parsed ''to'', get parsed ''amount'') of
                    (Some (JStr f), Some (JStr t), Some (JNum a)) \<Rightarrow>
                      Some (Accept, bal', [Notice (TransferOK f t a)])
                  | _ \<Rightarrow> None))
          else Some (Accept, bal, []))"

text \<open>
  A query changes nothing; the balance in its report is left open (\<open>None\<close>) where the key
  is not a string or names an inherited member. A failure is answered by \<open>"reject"\<close> alone:
  this handler sends no report.
\<close>

definition number_reported_balance :: "number_balances \<Rightarrow> json \<Rightarrow> jsnum option" where
  "number_reported_balance bal user =
     (case user of
        JStr k \<Rightarrow> if k \<in> set prototype_keys then None else Some (number_balance_of bal k)
      | _ \<Rightarrow> None)"

definition actions_handleInspect :: "number_balances \<Rightarrow> requestData \<Rightarrow> status \<times> event list" where
  "actions_handleInspect bal requestData =
     (let decodedString = hexToString (payload requestData) in
      case JSON_parse decodedString of
        None \<Rightarrow> (Reject, [])
      | Some JNull \<Rightarrow> (Reject, [])
      | Some parsed \<Rightarrow>
          if get parsed ''action'' = Some (JStr ''balance'') \<and> truthy_opt (get parsed ''user'')
          then (case get parsed ''user'' of
                  Some user \<Rightarrow> (Accept, [Report (NumberBalanceOf user (number_reported_balance bal user))])
                | None \<Rightarrow> (Accept, []))
          else (Accept, []))"

text \<open>
  This loop asks for the next input with the status \<open>"accept"\<close> every time and, after a
  request, calls \<open>/finish\<close> a second time with the handler's status; the answer to that second
  call is not read.
\<close>

fun actions_mainLoop :: "number_balances \<Rightarrow> finish_response list \<Rightarrow> call list option" where
  "actions_mainLoop bal [] = Some [Finish Accept]"
| "actions_mainLoop bal (NoInput # responses) =
     map_option ((#) (Finish Accept)) (actions_mainLoop bal responses)"
| "actions_mainLoop bal (Request request_type data # responses) =
     (let handled =
            (if request_type = ''advance_state'' then actions_handleAdvance bal data
             else if request_type = ''inspect_state'' then
               (case actions_handleInspect bal data of (st, events) \<Rightarrow> Some (st, bal, events))
             else Some (Accept, bal, []))
      in case handled of
           None \<Rightarrow> None
         | Some (resultStatus, bal', events) \<Rightarrow>
             map_option (\<lambda>calls. Finish Accept # map Emit events @ Finish resultStatus # calls)
               (case responses of
                  [] \<Rightarrow> Some []
                | ignored # responses' \<Rightarrow> actions_mainLoop bal' responses'))"

section \<open>Notions used by the statements\<close>

definition is_voucher :: "event \<Rightarrow> bool" where
  "is_voucher e = (case e of Voucher d a \<Rightarrow> True | _ \<Rightarrow> False)"

text \<open>The sum of the balances a ledger records.\<close>

definition total :: "balances \<Rightarrow> int" where
  "total bal = sum_list (map (balance_of bal) (remdups (map fst bal)))"

text \<open>The outputs only a deposit makes, and those only a JSON action makes.\<close>

definition deposit_event :: "event \<Rightarrow> bool" where
  "deposit_event e =
     (case e of
        Notice (DepositOK r n) \<Rightarrow> True
      | Report (ErrorMessage (ErrorParsingDeposit x)) \<Rightarrow> True
      | _ \<Rightarrow> False)"

definition json_action_event :: "event \<Rightarrow> bool" where
  "json_action_event e =
     (case e of
        Voucher d a \<Rightarrow> True
      | Notice (VoucherIssued w a) \<Rightarrow> True
      | Report (LoserHasNoBalance l) \<Rightarrow> True
      | Report (UnrecognizedJSON s) \<Rightarrow> True
      | _ \<Rightarrow> False)"

text \<open>The ledger after an amount is credited to a recipient, as \<open>processDeposit\<close> computes it.\<close>

definition deposited :: "balances \<Rightarrow> string \<Rightarrow> int \<Rightarrow> balances" where
  "deposited bal recipient amount =
     (let bal1 = (if balance_of bal recipient = 0 then AList.update recipient 0 bal else bal)
      in AList.update recipient (balance_of bal1 recipient + amount) bal1)"

text \<open>
  A rational is a \<open>Number\<close> when rounding leaves it as it is; the numbers of the program are
  these, the infinities and not-a-number. The parsed numbers are never not-a-number.
\<close>

definition representable :: "jsnum \<Rightarrow> bool" where
  "representable n = (case n of Fin q \<Rightarrow> fl q = Fin q | NaN \<Rightarrow> False | _ \<Rightarrow> True)"

text \<open>No balance of a ledger is negative.\<close>

definition all_nonneg :: "balances \<Rightarrow> bool" where
  "all_nonneg bal = list_all (\<lambda>(k, v). 0 \<le> v) bal"

text \<open>
  In the ledger of numbers a balance is not negative when \<open>0 <= v\<close> holds of it: a rational from
  0 on or the positive infinity, and never not-a-number.
\<close>

definition nonneg_number :: "jsnum \<Rightarrow> bool" where
  "nonneg_number v = (case v of Fin q \<Rightarrow> 0 \<le> q | PosInf \<Rightarrow> True | _ \<Rightarrow> False)"

definition never_negative :: "number_balances \<Rightarrow> bool" where
  "never_negative bal = list_all (\<lambda>(k, v). nonneg_number v) bal"

text \<open>
  The inputs of the node for JSON actions that the statements on transfers and on the sign of
  the balances are about: \<open>sender\<close>, \<open>from\<close> and \<open>to\<close>, where the input has them, are strings that
  name no inherited member, and \<open>amount\<close>, where the input has it, is a number.
\<close>

definition plain_key :: "json option \<Rightarrow> bool" where
  "plain_key v = (case v of None \<Rightarrow> True | Some (JStr k) \<Rightarrow> k \<notin> set prototype_keys | Some _ \<Rightarrow> False)"

definition plain_input :: "json \<Rightarrow> bool" where
  "plain_input p =
     (plain_key (get p ''sender'') \<and> plain_key (get p ''from'') \<and> plain_key (get p ''to'')
      \<and> (case get p ''amount'' of None \<Rightarrow> True | Some (JNum a) \<Rightarrow> True | Some _ \<Rightarrow> False))"

text \<open>The \<open>amount\<close> of a parsed input, where it has one, is a finite number from 0 on.\<close>

definition amount_finite_nonneg :: "json \<Rightarrow> bool" where
  "amount_finite_nonneg p =
     (case get p ''amount'' of None \<Rightarrow> True | Some (JNum (Fin y)) \<Rightarrow> 0 \<le> y | Some _ \<Rightarrow> False)"

text \<open>The ledger after a sequence of inputs, each handled by \<open>handleAdvance\<close>.\<close>

definition ledger_after :: "balances \<Rightarrow> requestData list \<Rightarrow> balances" where
  "ledger_after bal requests = foldl (\<lambda>b r. fst (snd (handleAdvance b r))) bal requests"

definition finish_statuses :: "call list \<Rightarrow> status list" where
  "finish_statuses calls = concat (map (\<lambda>c. case c of Finish s \<Rightarrow> [s] | Emit e \<Rightarrow> []) calls)"

definition is_ascii :: "string \<Rightarrow> bool" where
  "is_ascii s = list_all (\<lambda>c. (of_char c :: nat) < 128) s"

definition is_digit_char :: "char \<Rightarrow> bool" where
  "is_digit_char c = (48 \<le> (of_char c :: nat) \<and> (of_char c :: nat) \<le> 57)"

section \<open>Example inputs\<close>

definition address_1 :: string where
  "address_1 = ''0x1111111111111111111111111111111111111111''"

definition address_2 :: string where
  "address_2 = ''0x2222222222222222222222222222222222222222''"

definition settle_text :: string where
  \<open>settle_text = ''{"win":"0x1111111111111111111111111111111111111111","loss":"0x2222222222222222222222222222222222222222"}''\<close>

definition settle_request :: requestData where
  "settle_request = \<lparr>payload = stringToBytes settle_text, metadata = Some \<lparr>msg_sender = address_1\<rparr>\<rparr>"

definition self_settle_text :: string where
  \<open>self_settle_text = ''{"win":"0x1111111111111111111111111111111111111111","loss":"0x1111111111111111111111111111111111111111"}''\<close>

definition self_settle_request :: requestData where
  "self_settle_request = \<lparr>payload = stringToBytes self_settle_text, metadata = Some \<lparr>msg_sender = address_1\<rparr>\<rparr>"

text \<open>A deposit of \<open>2\<^sup>2\<^sup>5\<^sup>5\<close> for the first address, and the ledger after two of them.\<close>

definition big_deposit_request :: requestData where
  "big_deposit_request =
     \<lparr>payload = replicate 20 0x11 @ [0x80] @ replicate 31 0, metadata = Some \<lparr>msg_sender = address_2\<rparr>\<rparr>"

definition big_ledger :: balances where
  "big_ledger = fst (snd (handleAdvance (fst (snd (handleAdvance [] big_deposit_request))) big_deposit_request))"

text \<open>A payload of 52 bytes that is the JSON text of a string.\<close>

definition quoted_text :: string where
  \<open>quoted_text = ''"aaaaaaaaaaaaaaaaaaaaaaaaaaaaaaaaaaaaaaaaaaaaaaaaaa"''\<close>

definition quoted_request :: requestData where
  "quoted_request = \<lparr>payload = stringToBytes quoted_text, metadata = Some \<lparr>msg_sender = address_1\<rparr>\<rparr>"

definition quoted_address :: string where
  "quoted_address = ''0x2261616161616161616161616161616161616161''"

definition empty_object_request :: requestData where
  "empty_object_request = \<lparr>payload = stringToBytes ''{}'', metadata = None\<rparr>"

text \<open>An address with letters, in lower and in upper case, a deposit of 5 for it, and a balance query.\<close>

definition lower_address :: string where
  "lower_address = ''0xaaaaaaaaaaaaaaaaaaaaaaaaaaaaaaaaaaaaaaaa''"

definition upper_address :: string where
  "upper_address = ''0xAAAAAAAAAAAAAAAAAAAAAAAAAAAAAAAAAAAAAAAA''"

definition letters_deposit_request :: requestData where
  "letters_deposit_request =
     \<lparr>payload = replicate 20 0xaa @ replicate 31 0 @ [5], metadata = Some \<lparr>msg_sender = address_1\<rparr>\<rparr>"

definition balance_query :: "string \<Rightarrow> requestData" where
  \<open>balance_query user =
     \<lparr>payload = stringToBytes (''{"action":"balance","user":"'' @ user @ ''"}''), metadata = None\<rparr>\<close>

text \<open>Inputs of the node for JSON actions.\<close>

definition action_request :: "string \<Rightarrow> requestData" where
  "action_request s = \<lparr>payload = stringToBytes s, metadata = Some \<lparr>msg_sender = address_1\<rparr>\<rparr>"

definition deposit_alice_75 :: string where
  \<open>deposit_alice_75 = ''{"action":"deposit","sender":"alice","amount":75}''\<close>

definition deposit_alice_minus_100 :: string where
  \<open>deposit_alice_minus_100 = ''{"action":"deposit","sender":"alice","amount":-100}''\<close>

definition transfer_alice_bob_0 :: string where
  \<open>transfer_alice_bob_0 = ''{"action":"transfer","from":"alice","to":"bob","amount":0}''\<close>

definition transfer_alice_bob_50 :: string where
  \<open>transfer_alice_bob_50 = ''{"action":"transfer","from":"alice","to":"bob","amount":50}''\<close>

definition query_alice :: string where
  \<open>query_alice = ''{"action":"balance","user":"alice"}''\<close>

definition malformed_request :: requestData where
  "malformed_request = action_request ''not json''"

section \<open>Numbers\<close>

text \<open>An integer below \<open>2\<^sup>5\<^sup>3\<close> in absolute value is a \<open>Number\<close>: rounding leaves it as it is.\<close>

lemma round_half_even_of_int: "round_half_even (of_int z) = z"
  by (simp add: round_half_even_def)

lemma ilog2_int_le:
  assumes "0 < a" and "a < 2 ^ 53"
  shows "ilog2 (of_int a) \<le> 52"
proof -
  have "bitlen a \<le> 53"
    using assms(2) by (simp add: bitlen_le_iff_power)
  moreover have "bitlen 1 = 1"
    by (subst compute_bitlen) simp
  ultimately show ?thesis
    by (simp add: ilog2_def quotient_of_int Let_def)
qed

lemma fl_of_int:
  assumes "\<bar>n\<bar> < 2 ^ 53"
  shows "fl (of_int n) = Fin (of_int n)"
proof (cases "n = 0")
  case True
  then show ?thesis by (simp add: fl_def)
next
  case False
  define a where "a = \<bar>n\<bar>"
  have a: "0 < a" "a < 2 ^ 53" using False assms by (simp_all add: a_def)
  define e where "e = max (ilog2 (of_int a)) (- 1022)"
  have e: "e \<le> 52" using ilog2_int_le[OF a] by (simp add: e_def)
  define m where "m = nat (52 - e)"
  have u: "pow2 (e - 52) = 1 / 2 ^ m"
  proof (cases "e = 52")
    case True
    then show ?thesis by (simp add: pow2_def m_def)
  next
    case False
    with e have "e - 52 < 0" by simp
    then show ?thesis by (simp add: pow2_def m_def)
  qed
  have "(of_int a :: rat) / pow2 (e - 52) = of_int (a * 2 ^ m)"
    by (simp add: u)
  then have r: "of_int (round_half_even ((of_int a :: rat) / pow2 (e - 52))) * pow2 (e - 52) = (of_int a :: rat)"
    by (simp only: round_half_even_of_int) (simp add: u)
  have "(of_int a :: rat) < 2 ^ 53" using a(2) by (metis of_int_less_numeral_power_cancel_iff)
  also have "\<dots> < 2 ^ 1024" by simp
  finally have small: "\<not> pow2 1024 \<le> (of_int a :: rat)" by (simp add: pow2_def)
  have abs: "\<bar>of_int n :: rat\<bar> = of_int a" by (simp add: a_def)
  have "fl (of_int n) = Fin (if 0 < (of_int n :: rat) then of_int a else - of_int a)"
    using False small r by (simp add: fl_def Let_def abs e_def)
  also have "\<dots> = Fin (of_int n)"
    using False by (auto simp: a_def)
  finally show ?thesis .
qed

lemma fl_numeral: "numeral w < (2 :: int) ^ 53 \<Longrightarrow> fl (numeral w) = Fin (numeral w)"
  using fl_of_int[of "numeral w"] by simp

lemma fl_neg_numeral: "numeral w < (2 :: int) ^ 53 \<Longrightarrow> fl (- numeral w) = Fin (- numeral w)"
  using fl_of_int[of "- numeral w"] by simp

lemma fl_zero: "fl 0 = Fin 0"
  by (simp add: fl_def)

text \<open>The equations that evaluate \<open>JSON.parse\<close> on a given text.\<close>

lemmas json_eval = JSON_parse_def step_def step_simple_def string_step_def start_value_def
  after_value_def finish_def is_ws_def digit_val_def num_continue_def num_accepting_def
  number_value_def pow10_def fl_numeral fl_neg_numeral fl_zero

section \<open>Decoding\<close>

lemma hex_digits_are_hex: "list_all (\<lambda>k. is_hex_char (hex_digit k)) [0..<16]"
  by code_simp

lemma is_hex_char_hex_digit: "is_hex_char (hex_digit n)"
proof -
  have "n mod 16 \<in> set [0..<16]" by simp
  with hex_digits_are_hex have "is_hex_char (hex_digit (n mod 16))"
    unfolding list_all_iff by blast
  then show ?thesis by (simp add: hex_digit_def)
qed

lemma length_hexlify: "length (hexlify bs) = 2 + 2 * length bs"
  by (induction bs) (simp_all add: hexlify_def)

lemma hexlify_prefix: "take 2 (hexlify bs) = ''0x''" "drop 2 (hexlify bs) = concat (map (\<lambda>b. [hex_digit (unat b div 16), hex_digit (unat b mod 16)]) bs)"
  by (simp_all add: hexlify_def)

lemma isAddress_hexlify: "length bs = 20 \<Longrightarrow> isAddress (hexlify bs)"
  by (simp add: isAddress_def length_hexlify hexlify_prefix list_all_iff is_hex_char_hex_digit)

lemma getAddress_hexlify:
  "length bs = 20 \<Longrightarrow> getAddress (hexlify bs) = Inr (checksumAddress (hexlify bs))"
  by (simp add: getAddress_def isAddress_hexlify)

lemma balance_of_update:
  "balance_of (AList.update k v bal) k' = (if k' = k then v else balance_of bal k')"
  by (simp add: balance_of_def update_conv')

lemma parseDepositPayload_exact:
  "length bytes = 52 \<Longrightarrow>
     parseDepositPayload bytes =
       Inr (checksumAddress (hexlify (take 20 bytes)), be_uint (drop 20 bytes))"
  by (simp add: parseDepositPayload_def getAddress_hexlify)

lemma parseDepositPayload_short:
  "length bytes < 52 \<Longrightarrow> parseDepositPayload bytes = Inl (ErrorParsingDeposit PayloadTooShort)"
  by (simp add: parseDepositPayload_def)

lemma be_uint_snoc: "be_uint (bs @ [b]) = be_uint bs * 256 + uint b"
  by (simp add: be_uint_def)

lemma be_uint_sum:
  "be_uint bs = (\<Sum>i<length bs. uint (bs ! i) * 256 ^ (length bs - 1 - i))"
proof (induction bs rule: rev_induct)
  case Nil
  then show ?case by (simp add: be_uint_def)
next
  case (snoc b bs)
  have "(\<Sum>i<length bs. uint ((bs @ [b]) ! i) * 256 ^ (length (bs @ [b]) - 1 - i))
        = (\<Sum>i<length bs. uint (bs ! i) * 256 ^ (length bs - 1 - i) * 256)"
  proof (rule sum.cong[OF refl])
    fix i assume "i \<in> {..<length bs}"
    then have i: "i < length bs" by simp
    then have "length bs - i = Suc (length bs - 1 - i)" by simp
    then show "uint ((bs @ [b]) ! i) * 256 ^ (length (bs @ [b]) - 1 - i)
               = uint (bs ! i) * 256 ^ (length bs - 1 - i) * 256"
      using i by (simp add: nth_append)
  qed
  then show ?case
    by (simp add: be_uint_snoc snoc.IH sum_distrib_right)
qed

lemma utf8_step_ascii:
  "unat b \<le> 0x7F \<Longrightarrow>
     utf8_step \<lparr>needed = 0, lower = 0x80, upper = 0xBF, pending = [], out = acc\<rparr> b
       = \<lparr>needed = 0, lower = 0x80, upper = 0xBF, pending = [], out = acc @ [b]\<rparr>"
  by (simp add: utf8_step_def utf8_lead_def)

lemma foldl_utf8_step_ascii:
  "\<forall>b\<in>set bs. unat b \<le> 0x7F \<Longrightarrow>
     foldl utf8_step \<lparr>needed = 0, lower = 0x80, upper = 0xBF, pending = [], out = acc\<rparr> bs
       = \<lparr>needed = 0, lower = 0x80, upper = 0xBF, pending = [], out = acc @ bs\<rparr>"
proof (induction bs arbitrary: acc)
  case Nil
  then show ?case by simp
next
  case (Cons b bs)
  then show ?case by (simp add: utf8_step_ascii)
qed

lemma utf8_decode_ascii:
  assumes "\<forall>b\<in>set bs. unat b \<le> 0x7F"
  shows "utf8_decode bs = bs"
proof -
  have "take 3 bs \<noteq> [0xEF, 0xBB, 0xBF]"
  proof
    assume "take 3 bs = [0xEF, 0xBB, 0xBF]"
    then have "(0xEF :: byte) \<in> set (take 3 bs)" by simp
    then have "(0xEF :: byte) \<in> set bs" by (rule in_set_takeD)
    with assms have "unat (0xEF :: byte) \<le> 0x7F" by blast
    then show False by simp
  qed
  then show ?thesis
    using foldl_utf8_step_ascii[OF assms, of "[]"] by (simp add: utf8_decode_def)
qed

lemma unat_of_char_byte: "unat (of_char c :: byte) = of_char c"
proof -
  have "unat (of_char c :: byte) = unat (of_nat (of_char c :: nat) :: byte)"
    by (simp only: of_nat_of_char)
  also have "\<dots> = (of_char c :: nat) mod 2 ^ LENGTH(8)"
    by (simp only: unat_of_nat)
  also have "\<dots> = of_char c"
    by simp
  finally show ?thesis .
qed

lemma hexToString_ascii:
  assumes "is_ascii s"
  shows "hexToString (stringToBytes s) = s"
proof -
  have "\<forall>b\<in>set (stringToBytes s). unat b \<le> 0x7F"
    using assms by (auto simp: is_ascii_def stringToBytes_def list_all_iff unat_of_char_byte)
  then have "utf8_decode (stringToBytes s) = stringToBytes s"
    by (rule utf8_decode_ascii)
  then show ?thesis
    by (simp add: hexToString_def stringToBytes_def unat_of_char_byte o_def)
qed

text \<open>A payload whose first byte cannot start a JSON text is not JSON.\<close>

lemma out_utf8_lead: "\<exists>t. out (utf8_lead done b) = done @ t"
  by (simp add: utf8_lead_def Let_def)

lemma out_utf8_step: "\<exists>t. out (utf8_step s b) = out s @ t"
  using out_utf8_lead[of "out s" b] out_utf8_lead[of "out s @ utf8_replacement" b]
  by (auto simp: utf8_step_def)

lemma out_foldl_utf8_step: "\<exists>t. out (foldl utf8_step s bs) = out s @ t"
proof (induction bs arbitrary: s)
  case Nil
  then show ?case by simp
next
  case (Cons b bs)
  from Cons[of "utf8_step s b"] obtain t where "out (foldl utf8_step (utf8_step s b) bs) = out (utf8_step s b) @ t"
    by blast
  moreover obtain t' where "out (utf8_step s b) = out s @ t'"
    using out_utf8_step by blast
  ultimately show ?case by simp
qed

lemma utf8_decode_first:
  assumes "out (utf8_step \<lparr>needed = 0, lower = 0x80, upper = 0xBF, pending = [], out = []\<rparr> b) = x # y # z"
    and "x \<noteq> 0xEF \<or> y \<noteq> 0xBB"
  shows "\<exists>r. utf8_decode (b # bs) = x # r"
proof -
  let ?s = "foldl utf8_step (utf8_step \<lparr>needed = 0, lower = 0x80, upper = 0xBF, pending = [], out = []\<rparr> b) bs"
  obtain t where t: "out ?s = (x # y # z) @ t"
    using out_foldl_utf8_step[of "utf8_step \<lparr>needed = 0, lower = 0x80, upper = 0xBF, pending = [], out = []\<rparr> b" bs]
      assms(1) by auto
  define u where "u = (if needed ?s = 0 then out ?s else out ?s @ utf8_replacement)"
  have "\<exists>w. u = x # y # w" using t by (simp add: u_def)
  then obtain w where w: "u = x # y # w" by blast
  then have "take 3 u \<noteq> [0xEF, 0xBB, 0xBF]"
    using assms(2) by (cases w) auto
  then have "utf8_decode (b # bs) = u"
    by (simp add: utf8_decode_def u_def Let_def)
  with w show ?thesis by simp
qed

lemma utf8_decode_first_ascii:
  assumes "unat b \<le> 0x7F"
  shows "\<exists>r. utf8_decode (b # bs) = b # r"
proof -
  have s: "utf8_step \<lparr>needed = 0, lower = 0x80, upper = 0xBF, pending = [], out = []\<rparr> b
            = \<lparr>needed = 0, lower = 0x80, upper = 0xBF, pending = [], out = [b]\<rparr>"
    using utf8_step_ascii[OF assms, of "[]"] by simp
  let ?s = "foldl utf8_step \<lparr>needed = 0, lower = 0x80, upper = 0xBF, pending = [], out = [b]\<rparr> bs"
  obtain t where t: "out ?s = [b] @ t"
    using out_foldl_utf8_step[of "\<lparr>needed = 0, lower = 0x80, upper = 0xBF, pending = [], out = [b]\<rparr>" bs]
    by auto
  define u where "u = (if needed ?s = 0 then out ?s else out ?s @ utf8_replacement)"
  have u: "\<exists>w. u = b # w" using t by (simp add: u_def)
  have "b \<noteq> 0xEF" using assms by auto
  with u have "take 3 u \<noteq> [0xEF, 0xBB, 0xBF]" by auto
  then have "utf8_decode (b # bs) = u"
    by (simp add: utf8_decode_def u_def Let_def s)
  with u show ?thesis by simp
qed

lemma JSON_parse_bad_start: "step (MValue, []) c = None \<Longrightarrow> JSON_parse (c # cs) = None"
  by (simp add: JSON_parse_def)

lemma no_json_first_byte:
  assumes "payload req = b # bs" and "unat b \<le> 0x7F"
    and "step (MValue, []) (char_of (unat b)) = None"
  shows "JSON_parse (hexToString (payload req)) = None"
proof -
  obtain r where "utf8_decode (b # bs) = b # r"
    using utf8_decode_first_ascii[OF assms(2)] by blast
  then show ?thesis
    using assms(1,3) by (simp add: hexToString_def JSON_parse_bad_start)
qed

lemma no_json_invalid_lead:
  assumes "payload req = b # bs" and "0x80 \<le> unat b" and "unat b \<le> 0xC1"
  shows "JSON_parse (hexToString (payload req)) = None"
proof -
  have "out (utf8_step \<lparr>needed = 0, lower = 0x80, upper = 0xBF, pending = [], out = []\<rparr> b) = [0xEF, 0xBF, 0xBD]"
    using assms(2,3) by (simp add: utf8_step_def utf8_lead_def utf8_replacement_def)
  then obtain r where "utf8_decode (b # bs) = 0xEF # r"
    using utf8_decode_first[of b "0xEF" "0xBF" "[0xBD]" bs] by auto
  moreover have "step (MValue, []) (char_of (unat (0xEF :: byte))) = None"
    by code_simp
  ultimately show ?thesis
    using assms(1) by (simp add: hexToString_def JSON_parse_bad_start)
qed

lemma replicate_first: "0 < n \<Longrightarrow> replicate n x = x # replicate (n - 1) x"
  by (cases n) simp_all


lemma digits_are_hex: "list_all (\<lambda>n. is_hex_char (char_of n)) [48..<58::nat]"
  by code_simp

lemma case_digit:
  assumes "is_digit_char c"
  shows "toLowerCase c = c \<and> toUpperCase c = c \<and> is_hex_char c"
proof -
  have r: "48 \<le> (of_char c :: nat)" "(of_char c :: nat) \<le> 57"
    using assms by (simp_all add: is_digit_char_def)
  then have "(of_char c :: nat) \<in> {48..<58}" by simp
  with digits_are_hex have "is_hex_char (char_of (of_char c :: nat))"
    unfolding list_all_iff set_upt by blast
  then have "is_hex_char c" by simp
  then show ?thesis
    using r by (simp add: toLowerCase_def toUpperCase_def)
qed

lemma getAddress_digits:
  assumes "length s = 42" and "take 2 s = ''0x''" and "list_all is_digit_char (drop 2 s)"
  shows "getAddress s = Inr s"
proof -
  have d: "\<And>c. c \<in> set (drop 2 s) \<Longrightarrow> toLowerCase c = c \<and> toUpperCase c = c \<and> is_hex_char c"
    using assms(3) case_digit by (auto simp: list_all_iff)
  have addr: "isAddress s"
    using assms d by (auto simp: isAddress_def list_all_iff)
  have low: "map toLowerCase (drop 2 s) = drop 2 s"
    using d by (simp add: map_idI)
  have len: "length (drop 2 s) = 40" using assms(1) by simp
  have "map (\<lambda>i. if 8 \<le> hash_nibble h i then toUpperCase (drop 2 s ! i) else drop 2 s ! i) [0..<40]
          = map (\<lambda>i. drop 2 s ! i) [0..<40]" for h
  proof (rule map_cong[OF refl])
    fix i assume "i \<in> set [0..<40]"
    then have "i < length (drop 2 s)" using len by simp
    then have "drop 2 s ! i \<in> set (drop 2 s)" by (rule nth_mem)
    then show "(if 8 \<le> hash_nibble h i then toUpperCase (drop 2 s ! i) else drop 2 s ! i) = drop 2 s ! i"
      using d by simp
  qed
  moreover have "map (\<lambda>i. drop 2 s ! i) [0..<40] = drop 2 s"
    using len map_nth[of "drop 2 s"] by simp
  ultimately have "checksumAddress s = ''0x'' @ drop 2 s"
    by (simp add: checksumAddress_def low Let_def)
  also have "\<dots> = s"
    using assms(2) append_take_drop_id[of 2 s] by simp
  finally show ?thesis
    using addr by (simp add: getAddress_def)
qed


section \<open>Settlement\<close>

lemma get_Some_object: "get p k = Some v \<Longrightarrow> truthy p \<and> typeof_object p"
  by (cases p) (simp_all add: get_def truthy_def typeof_object_def)

lemma getAddress_nonempty: "getAddress w = Inr a \<Longrightarrow> w \<noteq> []"
  by (auto simp: getAddress_def isAddress_def split: if_splits)

lemma handleAdvance_settle:
  assumes parse: "JSON_parse (hexToString (payload req)) = Some parsed"
    and win: "get parsed ''win'' = Some (JStr w)"
    and loss: "get parsed ''loss'' = Some (JStr l)"
    and gw: "getAddress w = Inr winner"
    and gl: "getAddress l = Inr loser"
    and N: "balance_of bal loser = N" "0 < N" "N < 2 ^ 256"
  shows "handleAdvance bal req =
           (Accept, AList.update loser 0 bal, [Voucher winner N, Notice (VoucherIssued winner N)])"
proof -
  have obj: "truthy parsed \<and> typeof_object parsed"
    using win by (rule get_Some_object)
  have tr: "truthy (JStr w)" "truthy (JStr l)"
    using getAddress_nonempty[OF gw] getAddress_nonempty[OF gl] by (simp_all add: truthy_def)
  have "advance_json bal (hexToString (payload req)) parsed =
          Inr (AList.update loser 0 bal, [Voucher winner N, Notice (VoucherIssued winner N)])"
    using win loss tr gw gl N
    by (simp add: advance_json_def getAddress_of_def generateVoucher_def)
  then show ?thesis
    using parse obj by (simp add: handleAdvance_def)
qed

lemma handleAdvance_settle_overflow:
  assumes parse: "JSON_parse (hexToString (payload req)) = Some parsed"
    and win: "get parsed ''win'' = Some (JStr w)"
    and loss: "get parsed ''loss'' = Some (JStr l)"
    and gw: "getAddress w = Inr winner"
    and gl: "getAddress l = Inr loser"
    and N: "2 ^ 256 \<le> balance_of bal loser"
  shows "handleAdvance bal req = (Reject, bal, [Report (ErrorMessage NumericFault)])"
proof -
  have obj: "truthy parsed \<and> typeof_object parsed"
    using win by (rule get_Some_object)
  have tr: "truthy (JStr w)" "truthy (JStr l)"
    using getAddress_nonempty[OF gw] getAddress_nonempty[OF gl] by (simp_all add: truthy_def)
  have pos: "0 < balance_of bal loser"
    using N by (smt (verit) zero_less_power)
  have "advance_json bal (hexToString (payload req)) parsed = Inl NumericFault"
    using win loss tr gw gl N pos
    by (simp add: advance_json_def getAddress_of_def generateVoucher_def)
  then show ?thesis
    using parse obj by (simp add: handleAdvance_def)
qed

text \<open>
  Claim C1, as amended. A settle input whose \<open>win\<close> and \<open>loss\<close> members are address texts,
  processed when the loser's balance is \<open>N\<close> with \<open>0 < N < 2\<^sup>2\<^sup>5\<^sup>6\<close>, is accepted; afterwards the
  loser's balance is 0 and every other balance of the ledger, the winner's included, is what
  it was (the winner is paid by the voucher, the ledger does not credit it); exactly one
  voucher is issued, for the winner and the amount \<open>N\<close>.
\<close>

theorem settle_zeroes_loser_one_voucher:
  assumes "JSON_parse (hexToString (payload req)) = Some parsed"
    and "get parsed ''win'' = Some (JStr w)"
    and "get parsed ''loss'' = Some (JStr l)"
    and "getAddress w = Inr winner"
    and "getAddress l = Inr loser"
    and "balance_of bal loser = N" "0 < N" "N < 2 ^ 256"
  shows "fst (handleAdvance bal req) = Accept
       \<and> balance_of (fst (snd (handleAdvance bal req))) k = (if k = loser then 0 else balance_of bal k)
       \<and> filter is_voucher (snd (snd (handleAdvance bal req))) = [Voucher winner N]"
  by (simp add: handleAdvance_settle[OF assms] balance_of_update is_voucher_def)

lemma sum_list_zero_one:
  "distinct xs \<Longrightarrow> a \<in> set xs \<Longrightarrow>
     sum_list (map (\<lambda>k. if k = a then 0 else f k) xs) = sum_list (map f xs) - (f a :: int)"
proof (induction xs)
  case Nil
  then show ?case by simp
next
  case (Cons x xs)
  show ?case
  proof (cases "x = a")
    case True
    with Cons.prems have "a \<notin> set xs" by simp
    then have "sum_list (map (\<lambda>k. if k = a then 0 else f k) xs) = sum_list (map f xs)"
      by (intro arg_cong[where f = sum_list] map_cong) auto
    with True show ?thesis by simp
  next
    case False
    with Cons show ?thesis by simp
  qed
qed

lemma total_update_zero:
  assumes "balance_of bal a \<noteq> 0"
  shows "total (AList.update a 0 bal) = total bal - balance_of bal a"
proof -
  have "map_of bal a \<noteq> None"
    using assms by (auto simp: balance_of_def split: option.splits)
  then have mem: "a \<in> fst ` set bal"
    by (simp add: map_of_eq_None_iff)
  then have keys: "map fst (AList.update a 0 bal) = map fst bal"
    by (simp add: update_keys)
  have "total (AList.update a 0 bal)
          = sum_list (map (\<lambda>k. if k = a then 0 else balance_of bal k) (remdups (map fst bal)))"
    by (simp add: total_def keys balance_of_update cong: map_cong)
  also have "\<dots> = total bal - balance_of bal a"
    unfolding total_def using mem by (intro sum_list_zero_one) auto
  finally show ?thesis .
qed

text \<open>
  Claim C10, as amended. A settle input that names the same address \<open>A\<close> as winner and as
  loser, processed when the balance of \<open>A\<close> is \<open>N\<close> with \<open>0 < N < 2\<^sup>2\<^sup>5\<^sup>6\<close>, is accepted: a voucher
  of amount \<open>N\<close> goes to \<open>A\<close> itself (followed by the notice), the balance of \<open>A\<close> becomes 0, and
  the total the ledger records decreases by \<open>N\<close>.
\<close>

theorem self_settle_burns_balance:
  assumes "JSON_parse (hexToString (payload req)) = Some parsed"
    and "get parsed ''win'' = Some (JStr w)"
    and "get parsed ''loss'' = Some (JStr l)"
    and "getAddress w = Inr A"
    and "getAddress l = Inr A"
    and "balance_of bal A = N" "0 < N" "N < 2 ^ 256"
  shows "fst (handleAdvance bal req) = Accept
       \<and> snd (snd (handleAdvance bal req)) = [Voucher A N, Notice (VoucherIssued A N)]
       \<and> balance_of (fst (snd (handleAdvance bal req))) A = 0
       \<and> total (fst (snd (handleAdvance bal req))) = total bal - N"
  using assms(6,7) by (simp add: handleAdvance_settle[OF assms] balance_of_update total_update_zero)

lemma getAddress_address_1: "getAddress address_1 = Inr address_1"
  by (rule getAddress_digits) (simp_all add: address_1_def is_digit_char_def)

lemma getAddress_address_2: "getAddress address_2 = Inr address_2"
  by (rule getAddress_digits) (simp_all add: address_2_def is_digit_char_def)

lemma parse_settle_text:
  "JSON_parse settle_text = Some (JObj [(''win'', JStr address_1), (''loss'', JStr address_2)])"
  unfolding settle_text_def address_1_def address_2_def by (simp add: json_eval)

lemma decode_settle_request: "hexToString (payload settle_request) = settle_text"
  unfolding settle_request_def by (simp add: hexToString_ascii is_ascii_def settle_text_def)

lemma settle_request_parsed:
  "JSON_parse (hexToString (payload settle_request))
     = Some (JObj [(''win'', JStr address_1), (''loss'', JStr address_2)])"
  by (simp add: decode_settle_request parse_settle_text)

lemma settle_request_members:
  "get (JObj [(''win'', JStr address_1), (''loss'', JStr address_2)]) ''win'' = Some (JStr address_1)"
  "get (JObj [(''win'', JStr address_1), (''loss'', JStr address_2)]) ''loss'' = Some (JStr address_2)"
  by (simp_all add: get_def)

lemma address_1_2: "address_1 \<noteq> address_2"
  by (simp add: address_1_def address_2_def)

text \<open>
  Claim C1 as it is written asks for the winner's balance to grow by \<open>N\<close>. With the loser at
  100 and a winner the ledger has never seen, the winner's balance after the settlement is
  not 100.
\<close>

theorem settle_counterexample:
  "balance_of [(address_2, 100)] address_2 = 100
   \<and> balance_of (fst (snd (handleAdvance [(address_2, 100)] settle_request))) address_1
       \<noteq> balance_of [(address_2, 100)] address_1 + 100"
proof -
  have b: "balance_of [(address_2, 100)] address_2 = 100" "(0::int) < 100" "(100::int) < 2 ^ 256"
    by (simp_all add: balance_of_def)
  have "handleAdvance [(address_2, 100)] settle_request
          = (Accept, AList.update address_2 0 [(address_2, 100)],
             [Voucher address_1 100, Notice (VoucherIssued address_1 100)])"
    by (rule handleAdvance_settle[OF settle_request_parsed settle_request_members
          getAddress_address_1 getAddress_address_2 b])
  then show ?thesis
    using address_1_2 by (simp add: balance_of_def)
qed

text \<open>The amended claim C1 at that input.\<close>

theorem settle_zeroes_loser_one_voucher_witness:
  "balance_of [(address_2, 100)] address_2 = 100
   \<and> fst (handleAdvance [(address_2, 100)] settle_request) = Accept
   \<and> balance_of (fst (snd (handleAdvance [(address_2, 100)] settle_request))) address_1 = 0
   \<and> balance_of (fst (snd (handleAdvance [(address_2, 100)] settle_request))) address_2 = 0
   \<and> filter is_voucher (snd (snd (handleAdvance [(address_2, 100)] settle_request))) = [Voucher address_1 100]"
proof -
  have b: "balance_of [(address_2, 100)] address_2 = 100" "(0::int) < 100" "(100::int) < 2 ^ 256"
    by (simp_all add: balance_of_def)
  note t = settle_zeroes_loser_one_voucher[OF settle_request_parsed settle_request_members
      getAddress_address_1 getAddress_address_2 b]
  have "balance_of [(address_2, 100)] address_1 = 0"
    using address_1_2 by (simp add: balance_of_def)
  then show ?thesis
    using t[of address_1] t[of address_2] b(1) address_1_2 by simp
qed


section \<open>Deposits\<close>

lemma checksumAddress_nonempty: "checksumAddress s \<noteq> []"
  by (simp add: checksumAddress_def Let_def)

lemma balance_of_deposited:
  "balance_of (deposited bal r a) k = (if k = r then balance_of bal r + a else balance_of bal k)"
  by (simp add: deposited_def balance_of_update Let_def)

lemma processDeposit_deposited:
  "recipient \<noteq> [] \<Longrightarrow> processDeposit bal recipient amount = Inr (deposited bal recipient amount)"
  by (simp add: processDeposit_def deposited_def)

lemma handleAdvance_deposit:
  assumes nj: "\<not> is_json_object (JSON_parse (hexToString (payload req)))"
    and len: "52 \<le> length (payload req)"
    and md: "metadata req = Some m"
  shows "handleAdvance bal req =
           (Accept,
            deposited bal (checksumAddress (hexlify (take 20 (payload req)))) (be_uint (take 32 (drop 20 (payload req)))),
            [Notice (DepositOK (checksumAddress (hexlify (take 20 (payload req))))
                       (balance_of bal (checksumAddress (hexlify (take 20 (payload req))))
                          + be_uint (take 32 (drop 20 (payload req)))))])"
proof -
  let ?r = "checksumAddress (hexlify (take 20 (payload req)))"
  let ?a = "be_uint (take 32 (drop 20 (payload req)))"
  have l20: "length (take 20 (payload req)) = 20" using len by simp
  have p: "parseDepositPayload (payload req) = Inr (?r, ?a)"
    using len by (simp add: parseDepositPayload_def getAddress_hexlify[OF l20] Let_def)
  have d: "advance_deposit bal req = Inr (deposited bal ?r ?a, [Notice (DepositOK ?r (balance_of bal ?r + ?a))])"
    by (simp add: advance_deposit_def p md processDeposit_deposited checksumAddress_nonempty
        balance_of_deposited)
  show ?thesis
    using nj d by (auto simp: handleAdvance_def is_json_object_def Let_def split: option.splits)
qed

lemma checksum_digits: "getAddress s = Inr s \<Longrightarrow> checksumAddress s = s"
  by (simp add: getAddress_def split: if_splits)

lemma big_deposit_no_json: "JSON_parse (hexToString (payload big_deposit_request)) = None"
proof (rule no_json_first_byte)
  show "payload big_deposit_request = 0x11 # (replicate 19 0x11 @ [0x80] @ replicate 31 0)"
    by (simp add: big_deposit_request_def replicate_first[of 20])
  show "unat (0x11 :: byte) \<le> 0x7F" by simp
  show "step (MValue, []) (char_of (unat (0x11 :: byte))) = None"
    by code_simp
qed

lemma big_deposit_not_json: "\<not> is_json_object (JSON_parse (hexToString (payload big_deposit_request)))"
  by (simp add: big_deposit_no_json is_json_object_def)

lemma big_deposit_recipient: "hexlify (take 20 (payload big_deposit_request)) = address_1"
  unfolding big_deposit_request_def address_1_def by code_simp

lemma big_deposit_amount: "be_uint (take 32 (drop 20 (payload big_deposit_request))) = 2 ^ 255"
  unfolding big_deposit_request_def by code_simp

lemma handleAdvance_big_deposit:
  "handleAdvance bal big_deposit_request =
     (Accept, deposited bal address_1 (2 ^ 255), [Notice (DepositOK address_1 (balance_of bal address_1 + 2 ^ 255))])"
proof -
  have len: "52 \<le> length (payload big_deposit_request)"
    by (simp add: big_deposit_request_def)
  have md: "metadata big_deposit_request = Some \<lparr>msg_sender = address_2\<rparr>"
    by (simp add: big_deposit_request_def)
  show ?thesis
    using handleAdvance_deposit[OF big_deposit_not_json len md, of bal]
    by (simp only: big_deposit_recipient big_deposit_amount checksum_digits[OF getAddress_address_1])
qed

lemma balance_of_Nil: "balance_of [] k = 0"
  by (simp add: balance_of_def)

lemma balance_big_ledger: "balance_of big_ledger address_1 = 2 ^ 256"
  by (simp add: big_ledger_def handleAdvance_big_deposit balance_of_deposited balance_of_Nil)

lemma parse_self_settle_text:
  "JSON_parse self_settle_text = Some (JObj [(''win'', JStr address_1), (''loss'', JStr address_1)])"
  unfolding self_settle_text_def address_1_def by (simp add: json_eval)

lemma self_settle_request_parsed:
  "JSON_parse (hexToString (payload self_settle_request))
     = Some (JObj [(''win'', JStr address_1), (''loss'', JStr address_1)])"
proof -
  have "hexToString (payload self_settle_request) = self_settle_text"
    unfolding self_settle_request_def by (simp add: hexToString_ascii is_ascii_def self_settle_text_def)
  then show ?thesis by (simp add: parse_self_settle_text)
qed
    
lemma self_settle_request_members:
  "get (JObj [(''win'', JStr address_1), (''loss'', JStr address_1)]) ''win'' = Some (JStr address_1)"
  "get (JObj [(''win'', JStr address_1), (''loss'', JStr address_1)]) ''loss'' = Some (JStr address_1)"
  by (simp_all add: get_def)

text \<open>
  Claim C10 as it is written covers every positive balance. Two deposits of \<open>2\<^sup>2\<^sup>5\<^sup>5\<close> leave the
  balance \<open>2\<^sup>2\<^sup>5\<^sup>6\<close>, which does not fit the 32 bytes of a voucher: the settlement is rejected,
  no voucher is issued and the balance stays.
\<close>

theorem self_settle_counterexample:
  "balance_of big_ledger address_1 = 2 ^ 256
   \<and> handleAdvance big_ledger self_settle_request = (Reject, big_ledger, [Report (ErrorMessage NumericFault)])
   \<and> balance_of (fst (snd (handleAdvance big_ledger self_settle_request))) address_1 \<noteq> 0"
proof -
  have "2 ^ 256 \<le> balance_of big_ledger address_1"
    by (simp add: balance_big_ledger)
  then have "handleAdvance big_ledger self_settle_request = (Reject, big_ledger, [Report (ErrorMessage NumericFault)])"
    by (rule handleAdvance_settle_overflow[OF self_settle_request_parsed self_settle_request_members
          getAddress_address_1 getAddress_address_1])
  then show ?thesis
    by (simp add: balance_big_ledger)
qed

text \<open>The amended claim C10 at the balance 100.\<close>

theorem self_settle_burns_balance_witness:
  "balance_of [(address_1, 100)] address_1 = 100
   \<and> fst (handleAdvance [(address_1, 100)] self_settle_request) = Accept
   \<and> snd (snd (handleAdvance [(address_1, 100)] self_settle_request))
       = [Voucher address_1 100, Notice (VoucherIssued address_1 100)]
   \<and> balance_of (fst (snd (handleAdvance [(address_1, 100)] self_settle_request))) address_1 = 0
   \<and> total [(address_1, 100)] = 100
   \<and> total (fst (snd (handleAdvance [(address_1, 100)] self_settle_request))) = 0"
proof -
  have b: "balance_of [(address_1, 100)] address_1 = 100" "(0::int) < 100" "(100::int) < 2 ^ 256"
    by (simp_all add: balance_of_def)
  have t: "total [(address_1, 100)] = 100"
    by (simp add: total_def balance_of_def)
  show ?thesis
    using self_settle_burns_balance[OF self_settle_request_parsed self_settle_request_members
      getAddress_address_1 getAddress_address_1 b] b(1) t
    by simp
qed

section \<open>Routing of a payload\<close>

lemma be_uint_nonneg: "0 \<le> be_uint bs"
proof -
  have "0 \<le> acc \<Longrightarrow> 0 \<le> foldl (\<lambda>acc b. acc * 256 + uint b) acc bs" for acc
    by (induction bs arbitrary: acc) simp_all
  then show ?thesis by (simp add: be_uint_def)
qed

lemma advance_json_cases:
  "advance_json bal txt p = Inl InvalidAddressError
   \<or> advance_json bal txt p = Inl NumericFault
   \<or> advance_json bal txt p = Inr (bal, [Report (UnrecognizedJSON txt)])
   \<or> (\<exists>l. advance_json bal txt p = Inr (bal, [Report (LoserHasNoBalance l)]))
   \<or> (\<exists>w l. 0 < balance_of bal l
         \<and> advance_json bal txt p
             = Inr (AList.update l 0 bal, [Voucher w (balance_of bal l), Notice (VoucherIssued w (balance_of bal l))]))"
  by (auto simp: advance_json_def getAddress_of_def getAddress_def generateVoucher_def Let_def
      split: option.splits sum.splits json.splits if_splits)

lemma advance_deposit_cases:
  "(\<exists>e. advance_deposit bal req = Inl (ErrorParsingDeposit e))
   \<or> advance_deposit bal req = Inl TypeError
   \<or> (\<exists>r a. 0 \<le> a \<and> advance_deposit bal req = Inr (deposited bal r a, [Notice (DepositOK r (balance_of bal r + a))]))"
proof (cases "parseDepositPayload (payload req)")
  case (Inl e)
  then show ?thesis
    by (auto simp: advance_deposit_def parseDepositPayload_def Let_def split: if_splits sum.splits)
next
  case (Inr ra)
  obtain r a where ra: "ra = (r, a)" by (cases ra)
  from Inr ra have "r \<noteq> [] \<and> 0 \<le> a"
    by (auto simp: parseDepositPayload_def Let_def getAddress_def checksumAddress_nonempty be_uint_nonneg
        split: if_splits sum.splits)
  then show ?thesis
    using Inr ra
    by (cases "metadata req")
       (auto simp: advance_deposit_def processDeposit_deposited balance_of_deposited)
qed

lemma handleAdvance_json:
  assumes "JSON_parse (hexToString (payload req)) = Some p" and "truthy p" and "typeof_object p"
  shows "handleAdvance bal req =
           (case advance_json bal (hexToString (payload req)) p of
              Inr (bal', events) \<Rightarrow> (Accept, bal', events)
            | Inl err \<Rightarrow> (Reject, bal, [Report (ErrorMessage err)]))"
  using assms by (simp add: handleAdvance_def)

lemma handleAdvance_not_json:
  assumes "\<not> is_json_object (JSON_parse (hexToString (payload req)))"
  shows "handleAdvance bal req =
           (case advance_deposit bal req of
              Inr (bal', events) \<Rightarrow> (Accept, bal', events)
            | Inl err \<Rightarrow> (Reject, bal, [Report (ErrorMessage err)]))"
  using assms by (auto simp: handleAdvance_def is_json_object_def Let_def split: option.splits)

text \<open>
  Claim C2, as amended. When the payload decodes to a text that parses as a JSON object or
  array, the input is never handled as a deposit: no deposit output is made, no balance
  grows, and an object without a true \<open>win\<close> or without a true \<open>loss\<close> is answered by the single
  report of an unrecognized structure, accepted, with the ledger untouched. When the text
  does not parse as JSON, the input goes to the deposit path only: no output of a JSON action
  is made, no balance shrinks, and when the input is accepted its outputs are those of a
  deposit.
\<close>

theorem payload_routing:
  "(JSON_parse (hexToString (payload req)) = Some p \<and> truthy p \<and> typeof_object p \<longrightarrow>
      list_all (\<lambda>e. \<not> deposit_event e) (snd (snd (handleAdvance bal req)))
      \<and> balance_of (fst (snd (handleAdvance bal req))) k \<le> balance_of bal k
      \<and> (\<not> (truthy_opt (get p ''win'') \<and> truthy_opt (get p ''loss'')) \<longrightarrow>
           handleAdvance bal req = (Accept, bal, [Report (UnrecognizedJSON (hexToString (payload req)))])))
   \<and> (JSON_parse (hexToString (payload req)) = None \<longrightarrow>
      list_all (\<lambda>e. \<not> json_action_event e) (snd (snd (handleAdvance bal req)))
      \<and> balance_of bal k \<le> balance_of (fst (snd (handleAdvance bal req))) k
      \<and> (fst (handleAdvance bal req) = Accept \<longrightarrow>
           list_all deposit_event (snd (snd (handleAdvance bal req)))))"
proof (intro conjI impI)
  assume a: "JSON_parse (hexToString (payload req)) = Some p \<and> truthy p \<and> typeof_object p"
  note h = handleAdvance_json[of req p bal]
  show "list_all (\<lambda>e. \<not> deposit_event e) (snd (snd (handleAdvance bal req)))"
    using a advance_json_cases[of bal "hexToString (payload req)" p]
    by (auto simp: h deposit_event_def)
  show "balance_of (fst (snd (handleAdvance bal req))) k \<le> balance_of bal k"
    using a advance_json_cases[of bal "hexToString (payload req)" p]
    by (auto simp: h balance_of_update)
  show "handleAdvance bal req = (Accept, bal, [Report (UnrecognizedJSON (hexToString (payload req)))])"
    if "\<not> (truthy_opt (get p ''win'') \<and> truthy_opt (get p ''loss''))"
    using a that
    by (auto simp: h advance_json_def truthy_opt_def split: option.splits)
next
  assume "JSON_parse (hexToString (payload req)) = None"
  then have n: "\<not> is_json_object (JSON_parse (hexToString (payload req)))"
    by (simp add: is_json_object_def)
  note h = handleAdvance_not_json[OF n, of bal]
  show "list_all (\<lambda>e. \<not> json_action_event e) (snd (snd (handleAdvance bal req)))"
    using advance_deposit_cases[of bal req]
    by (auto simp: h json_action_event_def)
  show "balance_of bal k \<le> balance_of (fst (snd (handleAdvance bal req))) k"
    using advance_deposit_cases[of bal req]
    by (auto simp: h balance_of_deposited)
  show "list_all deposit_event (snd (snd (handleAdvance bal req)))"
    if "fst (handleAdvance bal req) = Accept"
    using advance_deposit_cases[of bal req] that
    by (auto simp: h deposit_event_def)
qed

lemma getAddress_quoted_address: "getAddress quoted_address = Inr quoted_address"
  by (rule getAddress_digits) (simp_all add: quoted_address_def is_digit_char_def)

lemma parse_quoted_text:
  "JSON_parse quoted_text = Some (JStr ''aaaaaaaaaaaaaaaaaaaaaaaaaaaaaaaaaaaaaaaaaaaaaaaaaa'')"
  unfolding quoted_text_def by (simp add: json_eval)

lemma decode_quoted_request: "hexToString (payload quoted_request) = quoted_text"
  unfolding quoted_request_def by (simp add: hexToString_ascii is_ascii_def quoted_text_def)

lemma quoted_recipient: "hexlify (take 20 (payload quoted_request)) = quoted_address"
  unfolding quoted_request_def quoted_text_def quoted_address_def by code_simp

lemma quoted_amount:
  "be_uint (take 32 (drop 20 (payload quoted_request)))
     = 44046402572626160612103472728795008085361523578694645928734845681441465000226"
  unfolding quoted_request_def quoted_text_def by code_simp

lemma deposited_Nil: "deposited [] r a = [(r, a)]"
  by (simp add: deposited_def balance_of_def)

text \<open>
  Claim C2 as it is written says that a payload which parses as JSON is never handled as a
  deposit. The 52 bytes of the JSON text of a string parse, and are credited as a deposit:
  the first 20 bytes as the recipient, the other 32 as the amount. (The branch for JSON asks
  for \<open>typeof parsed === "object"\<close>.)
\<close>

theorem json_string_taken_for_deposit:
  "JSON_parse (hexToString (payload quoted_request))
     = Some (JStr ''aaaaaaaaaaaaaaaaaaaaaaaaaaaaaaaaaaaaaaaaaaaaaaaaaa'')
   \<and> handleAdvance [] quoted_request
       = (Accept,
          [(quoted_address, 44046402572626160612103472728795008085361523578694645928734845681441465000226)],
          [Notice (DepositOK quoted_address
             44046402572626160612103472728795008085361523578694645928734845681441465000226)])"
proof -
  have p: "JSON_parse (hexToString (payload quoted_request))
             = Some (JStr ''aaaaaaaaaaaaaaaaaaaaaaaaaaaaaaaaaaaaaaaaaaaaaaaaaa'')"
    by (simp add: decode_quoted_request parse_quoted_text)
  have nj: "\<not> is_json_object (JSON_parse (hexToString (payload quoted_request)))"
    by (simp add: p is_json_object_def typeof_object_def)
  have len: "52 \<le> length (payload quoted_request)"
    by (simp add: quoted_request_def quoted_text_def stringToBytes_def)
  have md: "metadata quoted_request = Some \<lparr>msg_sender = address_1\<rparr>"
    by (simp add: quoted_request_def)
  have "handleAdvance [] quoted_request
       = (Accept,
          deposited [] quoted_address 44046402572626160612103472728795008085361523578694645928734845681441465000226,
          [Notice (DepositOK quoted_address
             (balance_of [] quoted_address + 44046402572626160612103472728795008085361523578694645928734845681441465000226))])"
    using handleAdvance_deposit[OF nj len md, of "[]"]
    by (simp only: quoted_recipient quoted_amount checksum_digits[OF getAddress_quoted_address])
  then show ?thesis
    using p by (simp add: deposited_Nil balance_of_Nil)
qed

lemma empty_object_parsed: "JSON_parse (hexToString (payload empty_object_request)) = Some (JObj [])"
  unfolding empty_object_request_def by (simp add: hexToString_ascii is_ascii_def json_eval)

text \<open>The amended claim C2 at the object \<open>{}\<close> and at a deposit that is not JSON.\<close>

theorem payload_routing_witness:
  "JSON_parse (hexToString (payload empty_object_request)) = Some (JObj [])
   \<and> handleAdvance [] empty_object_request = (Accept, [], [Report (UnrecognizedJSON ''{}'')])
   \<and> JSON_parse (hexToString (payload big_deposit_request)) = None
   \<and> fst (handleAdvance [] big_deposit_request) = Accept
   \<and> list_all deposit_event (snd (snd (handleAdvance [] big_deposit_request)))
   \<and> list_all (\<lambda>e. \<not> json_action_event e) (snd (snd (handleAdvance [] big_deposit_request)))
   \<and> balance_of [] address_1 \<le> balance_of (fst (snd (handleAdvance [] big_deposit_request))) address_1"
proof -
  have o: "truthy (JObj [])" "typeof_object (JObj [])"
    "\<not> (truthy_opt (get (JObj []) ''win'') \<and> truthy_opt (get (JObj []) ''loss''))"
    by (simp_all add: truthy_def typeof_object_def get_def truthy_opt_def)
  have d: "hexToString (payload empty_object_request) = ''{}''"
    unfolding empty_object_request_def by (simp add: hexToString_ascii is_ascii_def)
  have a: "fst (handleAdvance [] big_deposit_request) = Accept"
    by (simp add: handleAdvance_big_deposit)
  show ?thesis
    using payload_routing[of empty_object_request "JObj []" "[]" address_1]
      payload_routing[of big_deposit_request JNull "[]" address_1]
      empty_object_parsed o d big_deposit_no_json a
    by simp
qed

section \<open>Decoding a deposit\<close>

text \<open>
  In the node with vouchers a payload of 52 bytes decodes to the checksummed text of its
  first 20 bytes and the big-endian value of the other 32, and a shorter one fails with the
  error of a payload too short.
\<close>

lemma parseDepositPayload_decodes:
  "(length bytes = 52 \<longrightarrow>
      parseDepositPayload bytes = Inr (checksumAddress (hexlify (take 20 bytes)), be_uint (drop 20 bytes)))
   \<and> (length bytes < 52 \<longrightarrow> parseDepositPayload bytes = Inl (ErrorParsingDeposit PayloadTooShort))"
  by (simp add: parseDepositPayload_exact parseDepositPayload_short)

lemma index_parseDepositPayload_exact:
  "length bytes = 52 \<Longrightarrow>
     index_parseDepositPayload bytes =
       Inr (checksumAddress (hexlify (take 20 bytes)), be_uint (drop 20 bytes))"
  by (auto simp: index_parseDepositPayload_def getAddress_hexlify Let_def)

text \<open>
  Claim C3: a deposit payload of exactly 52 bytes decodes to the recipient of its first 20
  bytes, in checksummed form, and the big-endian amount of its other 32 bytes, and every
  shorter payload fails as too short. \<open>parseDepositPayload\<close> of \<open>src/index.js\<close> checks the length
  of the address only: a payload of 30 bytes decodes, its 10 last bytes being the amount,
  and the deposit is accepted and credited.
\<close>

theorem index_short_payload_accepted:
  "length (replicate 30 (0x11 :: byte)) < 52
   \<and> index_parseDepositPayload (replicate 30 0x11) = Inr (address_1, 80595054640975278313745)
   \<and> index_handleAdvance [] \<lparr>payload = replicate 30 0x11, metadata = Some \<lparr>msg_sender = address_2\<rparr>\<rparr>
       = (Accept, [(address_1, 80595054640975278313745)], [Notice (DepositOK address_1 80595054640975278313745)])"
proof -
  have h: "hexlify (take 20 (replicate 30 (0x11 :: byte))) = address_1"
    unfolding address_1_def by code_simp
  have a: "be_uint (take 32 (drop 20 (replicate 30 (0x11 :: byte)))) = 80595054640975278313745"
    by code_simp
  have n: "take 32 (drop 20 (replicate 30 (0x11 :: byte))) \<noteq> []"
    by simp
  have p: "index_parseDepositPayload (replicate 30 0x11) = Inr (address_1, 80595054640975278313745)"
    unfolding index_parseDepositPayload_def Let_def
    by (simp only: h a getAddress_address_1) (simp add: n)
  have ne: "address_1 \<noteq> []" by (simp add: address_1_def)
  show ?thesis
    by (simp add: p index_handleAdvance_def processDeposit_deposited[OF ne] deposited_Nil balance_of_def)
qed

section \<open>Credit and query\<close>

lemma handleInspect_balance:
  assumes "JSON_parse (hexToString (payload q)) = Some parsed"
    and "get parsed ''action'' = Some (JStr ''balance'')"
    and "get parsed ''user'' = Some (JStr u)" and "u \<noteq> []"
  shows "handleInspect bal q = (Accept, [Report (BalanceOf (JStr u) (reported_balance bal (JStr u)))])"
proof -
  have "parsed \<noteq> JNull" using assms(2) by (auto simp: get_def)
  then show ?thesis
    using assms by (cases parsed) (simp_all add: handleInspect_def truthy_opt_def truthy_def)
qed

lemma map_of_deposited:
  "map_of (deposited bal r a) r = Some (balance_of bal r + a)"
  by (simp add: deposited_def update_conv' balance_of_update Let_def)

lemma deposit_then_query:
  assumes "\<not> is_json_object (JSON_parse (hexToString (payload dep)))"
    and "52 \<le> length (payload dep)" and "metadata dep = Some m"
    and "map_of bal (checksumAddress (hexlify (take 20 (payload dep)))) = None"
    and "JSON_parse (hexToString (payload q)) = Some parsed"
    and "get parsed ''action'' = Some (JStr ''balance'')"
    and "get parsed ''user'' = Some (JStr (checksumAddress (hexlify (take 20 (payload dep)))))"
  shows "handleInspect (fst (snd (handleAdvance bal dep))) q
           = (Accept, [Report (BalanceOf (JStr (checksumAddress (hexlify (take 20 (payload dep)))))
                                (Some (be_uint (take 32 (drop 20 (payload dep))))))])"
proof -
  let ?a = "checksumAddress (hexlify (take 20 (payload dep)))"
  have z: "balance_of bal ?a = 0" using assms(4) by (simp add: balance_of_def)
  have "reported_balance (fst (snd (handleAdvance bal dep))) (JStr ?a)
          = Some (be_uint (take 32 (drop 20 (payload dep))))"
    by (simp add: handleAdvance_deposit[OF assms(1-3)] reported_balance_def map_of_deposited z)
  then show ?thesis
    using handleInspect_balance[OF assms(5,6,7) checksumAddress_nonempty] by simp
qed

lemma js_add_zero: "js_add (Fin 0) n = (case n of Fin q \<Rightarrow> fl q | _ \<Rightarrow> n)"
  by (cases n) (simp_all add: js_add_def)

lemma number_balance_of_update:
  "number_balance_of (AList.update k v bal) k' =
     (if k' = k then (if num_truthy v then v else Fin 0) else number_balance_of bal k')"
  by (simp add: number_balance_of_def update_conv')

lemma no_balance_update:
  "no_balance (AList.update k v bal) k' = (if k' = k then \<not> num_truthy v else no_balance bal k')"
  by (simp add: no_balance_def update_conv')

lemma actions_deposit_then_query:
  assumes pd: "JSON_parse (hexToString (payload dep)) = Some pd"
    and act: "get pd ''action'' = Some (JStr ''deposit'')"
    and snd: "get pd ''sender'' = Some (JStr a)"
    and amt: "get pd ''amount'' = Some (JNum n)"
    and a: "a \<noteq> []" "a \<notin> set prototype_keys" "map_of bal a = None"
    and n: "representable n"
    and pq: "JSON_parse (hexToString (payload q)) = Some pq"
    and qa: "get pq ''action'' = Some (JStr ''balance'')"
    and qu: "get pq ''user'' = Some (JStr a)"
  shows "\<exists>bal' events. actions_handleAdvance bal dep = Some (Accept, bal', events)
           \<and> actions_handleInspect bal' q = (Accept, [Report (NumberBalanceOf (JStr a) (Some n))])"
proof -
  let ?bal' = "AList.update a (js_add (Fin 0) n) (AList.update a (Fin 0) bal)"
  have nb: "no_balance bal a" using a(3) by (simp add: no_balance_def)
  have d: "actions_processDeposit bal pd = Some (Inr ?bal')"
    using snd amt a nb
    by (simp add: actions_processDeposit_def truthy_opt_def truthy_def is_nullish_def
        number_balance_of_update num_truthy_def)
  have pdn: "pd \<noteq> JNull" using act by (auto simp: get_def)
  have adv: "actions_handleAdvance bal dep = Some (Accept, ?bal', [Notice (SenderDepositOK a (map_of ?bal' a))])"
    using pd act pdn d snd by (cases pd) (simp_all add: actions_handleAdvance_def)
  have val: "js_add (Fin 0) n = n \<and> n \<noteq> NaN"
    using n by (cases n) (simp_all add: js_add_zero representable_def)
  have rep: "number_reported_balance ?bal' (JStr a) = Some n"
    using a(2) val by (simp add: number_reported_balance_def number_balance_of_update num_truthy_def)
  have pqn: "pq \<noteq> JNull" using qa by (auto simp: get_def)
  have "actions_handleInspect ?bal' q = (Accept, [Report (NumberBalanceOf (JStr a) (Some n))])"
    using pq qa qu pqn a(1) rep
    by (cases pq) (simp_all add: actions_handleInspect_def truthy_opt_def truthy_def)
  with adv show ?thesis by blast
qed

text \<open>
  Claim C6: for an address the ledger has not seen and an amount \<open>n\<close>, a credit followed by a
  balance query for that address reports exactly \<open>n\<close>. In the nodes that take binary deposits
  the address is the checksummed recipient of the payload and \<open>n\<close> its amount; in the node
  for JSON actions the address is the \<open>sender\<close> of a deposit action (a key of the covered
  kind) and \<open>n\<close> its \<open>amount\<close>, any number, non-negative or not.
\<close>

theorem credit_then_query:
  "(\<not> is_json_object (JSON_parse (hexToString (payload dep)))
      \<and> 52 \<le> length (payload dep) \<and> metadata dep = Some m
      \<and> map_of bal (checksumAddress (hexlify (take 20 (payload dep)))) = None
      \<and> JSON_parse (hexToString (payload q)) = Some parsed
      \<and> get parsed ''action'' = Some (JStr ''balance'')
      \<and> get parsed ''user'' = Some (JStr (checksumAddress (hexlify (take 20 (payload dep)))))
    \<longrightarrow> handleInspect (fst (snd (handleAdvance bal dep))) q
          = (Accept, [Report (BalanceOf (JStr (checksumAddress (hexlify (take 20 (payload dep)))))
                               (Some (be_uint (take 32 (drop 20 (payload dep))))))]))
   \<and> (JSON_parse (hexToString (payload dep')) = Some pd
      \<and> get pd ''action'' = Some (JStr ''deposit'')
      \<and> get pd ''sender'' = Some (JStr a) \<and> get pd ''amount'' = Some (JNum n)
      \<and> a \<noteq> [] \<and> a \<notin> set prototype_keys \<and> map_of nbal a = None \<and> representable n
      \<and> JSON_parse (hexToString (payload q')) = Some pq
      \<and> get pq ''action'' = Some (JStr ''balance'') \<and> get pq ''user'' = Some (JStr a)
    \<longrightarrow> (\<exists>bal' events. actions_handleAdvance nbal dep' = Some (Accept, bal', events)
           \<and> actions_handleInspect bal' q' = (Accept, [Report (NumberBalanceOf (JStr a) (Some n))])))"
  using deposit_then_query[of dep m bal q parsed]
    actions_deposit_then_query[of dep' pd a n nbal q' pq]
  by blast

lemma decode_balance_query:
  "is_ascii user \<Longrightarrow>
     hexToString (payload (balance_query user)) = ''{\"action\":\"balance\",\"user\":\"'' @ user @ ''\"}''"
  by (simp add: balance_query_def hexToString_ascii is_ascii_def)


lemma parse_query_address_1:
  \<open>JSON_parse (''{"action":"balance","user":"'' @ address_1 @ ''"}'')
     = Some (JObj [(''action'', JStr ''balance''), (''user'', JStr address_1)])\<close>
  unfolding address_1_def by (simp add: json_eval)

lemma is_ascii_address_1: "is_ascii address_1"
  unfolding address_1_def is_ascii_def by simp

lemma fl_75: "fl 75 = Fin 75"
  by (simp add: fl_numeral)

lemma actions_deposit_alice_75:
  "actions_handleAdvance [] (action_request deposit_alice_75)
     = Some (Accept, [(''alice'', Fin 75)], [Notice (SenderDepositOK ''alice'' (Some (Fin 75)))])"
proof -
  have p: "JSON_parse (hexToString (payload (action_request deposit_alice_75)))
     = Some (JObj [(''action'', JStr ''deposit''), (''sender'', JStr ''alice''), (''amount'', JNum (Fin 75))])"
    unfolding action_request_def deposit_alice_75_def
    by (simp add: hexToString_ascii is_ascii_def json_eval)
  show ?thesis
    by (simp add: actions_handleAdvance_def p get_def actions_processDeposit_def truthy_opt_def truthy_def
        is_nullish_def prototype_keys_def no_balance_def number_balance_of_def num_truthy_def
        js_add_def fl_numeral)
qed

lemma parse_deposit_alice_75:
  "JSON_parse (hexToString (payload (action_request deposit_alice_75)))
     = Some (JObj [(''action'', JStr ''deposit''), (''sender'', JStr ''alice''), (''amount'', JNum (Fin 75))])"
  unfolding action_request_def deposit_alice_75_def
  by (simp add: hexToString_ascii is_ascii_def json_eval)

lemma parse_query_alice:
  "JSON_parse (hexToString (payload (action_request query_alice)))
     = Some (JObj [(''action'', JStr ''balance''), (''user'', JStr ''alice'')])"
  unfolding action_request_def query_alice_def
  by (simp add: hexToString_ascii is_ascii_def json_eval)

text \<open>Claim C6 at a binary deposit of \<open>2\<^sup>2\<^sup>5\<^sup>5\<close> and at a JSON deposit of 75.\<close>

theorem credit_then_query_witness:
  "handleInspect (fst (snd (handleAdvance [] big_deposit_request))) (balance_query address_1)
     = (Accept, [Report (BalanceOf (JStr address_1) (Some (2 ^ 255)))])
   \<and> actions_handleAdvance [] (action_request deposit_alice_75)
       = Some (Accept, [(''alice'', Fin 75)], [Notice (SenderDepositOK ''alice'' (Some (Fin 75)))])
   \<and> actions_handleInspect [(''alice'', Fin 75)] (action_request query_alice)
       = (Accept, [Report (NumberBalanceOf (JStr ''alice'') (Some (Fin 75)))])"
proof -
  have len: "52 \<le> length (payload big_deposit_request)"
    by (simp add: big_deposit_request_def)
  have md: "metadata big_deposit_request = Some \<lparr>msg_sender = address_2\<rparr>"
    by (simp add: big_deposit_request_def)
  have r: "checksumAddress (hexlify (take 20 (payload big_deposit_request))) = address_1"
    by (simp only: big_deposit_recipient checksum_digits[OF getAddress_address_1])
  have pq: "JSON_parse (hexToString (payload (balance_query address_1)))
              = Some (JObj [(''action'', JStr ''balance''), (''user'', JStr address_1)])"
    by (simp only: decode_balance_query[OF is_ascii_address_1] parse_query_address_1)
  have g: "get (JObj [(''action'', JStr ''balance''), (''user'', JStr address_1)]) ''action'' = Some (JStr ''balance'')"
      "get (JObj [(''action'', JStr ''balance''), (''user'', JStr address_1)]) ''user'' = Some (JStr address_1)"
    by (simp_all add: get_def)
  have g1: "get (JObj [(''action'', JStr ''deposit''), (''sender'', JStr ''alice''), (''amount'', JNum (Fin 75))]) ''action''
              = Some (JStr ''deposit'')"
      "get (JObj [(''action'', JStr ''deposit''), (''sender'', JStr ''alice''), (''amount'', JNum (Fin 75))]) ''sender''
              = Some (JStr ''alice'')"
      "get (JObj [(''action'', JStr ''deposit''), (''sender'', JStr ''alice''), (''amount'', JNum (Fin 75))]) ''amount''
              = Some (JNum (Fin 75))"
    by (simp_all add: get_def)
  have g2: "get (JObj [(''action'', JStr ''balance''), (''user'', JStr ''alice'')]) ''action'' = Some (JStr ''balance'')"
      "get (JObj [(''action'', JStr ''balance''), (''user'', JStr ''alice'')]) ''user'' = Some (JStr ''alice'')"
    by (simp_all add: get_def)
  have al: "''alice'' \<noteq> []" "''alice'' \<notin> set prototype_keys" "map_of ([] :: number_balances) ''alice'' = None"
    "representable (Fin 75)"
    by (simp_all add: prototype_keys_def representable_def fl_75)
  note t = credit_then_query[of big_deposit_request "\<lparr>msg_sender = address_2\<rparr>" "[]" "balance_query address_1"
      "JObj [(''action'', JStr ''balance''), (''user'', JStr address_1)]"
      "action_request deposit_alice_75"
      "JObj [(''action'', JStr ''deposit''), (''sender'', JStr ''alice''), (''amount'', JNum (Fin 75))]"
      "''alice''" "Fin 75" "[]" "action_request query_alice"
      "JObj [(''action'', JStr ''balance''), (''user'', JStr ''alice'')]"]
  have first: "handleInspect (fst (snd (handleAdvance [] big_deposit_request))) (balance_query address_1)
     = (Accept, [Report (BalanceOf (JStr address_1) (Some (2 ^ 255)))])"
    using t big_deposit_not_json len md pq g
    by (simp add: r big_deposit_amount)
  have "\<exists>bal' events. actions_handleAdvance [] (action_request deposit_alice_75) = Some (Accept, bal', events)
           \<and> actions_handleInspect bal' (action_request query_alice)
               = (Accept, [Report (NumberBalanceOf (JStr ''alice'') (Some (Fin 75)))])"
    using t parse_deposit_alice_75 parse_query_alice g1 g2 al by blast
  then have second: "actions_handleInspect [(''alice'', Fin 75)] (action_request query_alice)
       = (Accept, [Report (NumberBalanceOf (JStr ''alice'') (Some (Fin 75)))])"
    by (auto simp: actions_deposit_alice_75)
  show ?thesis
    using first second actions_deposit_alice_75 by simp
qed

lemma letters_deposit_no_json: "JSON_parse (hexToString (payload letters_deposit_request)) = None"
proof (rule no_json_invalid_lead)
  show "payload letters_deposit_request = 0xaa # (replicate 19 0xaa @ replicate 31 0 @ [5])"
    by (simp add: letters_deposit_request_def replicate_first[of 20])
qed simp_all

lemma letters_deposit_not_json: "\<not> is_json_object (JSON_parse (hexToString (payload letters_deposit_request)))"
  by (simp add: letters_deposit_no_json is_json_object_def)

lemma letters_deposit_recipient: "hexlify (take 20 (payload letters_deposit_request)) = lower_address"
  unfolding letters_deposit_request_def lower_address_def by code_simp

lemma letters_deposit_amount: "be_uint (take 32 (drop 20 (payload letters_deposit_request))) = 5"
  unfolding letters_deposit_request_def by code_simp

lemma handleAdvance_letters_deposit:
  "handleAdvance [] letters_deposit_request =
     (Accept, [(checksumAddress lower_address, 5)], [Notice (DepositOK (checksumAddress lower_address) 5)])"
proof -
  have len: "52 \<le> length (payload letters_deposit_request)"
    by (simp add: letters_deposit_request_def)
  have md: "metadata letters_deposit_request = Some \<lparr>msg_sender = address_1\<rparr>"
    by (simp add: letters_deposit_request_def)
  show ?thesis
    using handleAdvance_deposit[OF letters_deposit_not_json len md, of "[]"]
    by (simp add: letters_deposit_recipient letters_deposit_amount deposited_Nil balance_of_Nil)
qed

lemma parse_query_lower:
  \<open>JSON_parse (''{"action":"balance","user":"'' @ lower_address @ ''"}'')
     = Some (JObj [(''action'', JStr ''balance''), (''user'', JStr lower_address)])\<close>
  unfolding lower_address_def by (simp add: json_eval)

lemma parse_query_upper:
  \<open>JSON_parse (''{"action":"balance","user":"'' @ upper_address @ ''"}'')
     = Some (JObj [(''action'', JStr ''balance''), (''user'', JStr upper_address)])\<close>
  unfolding upper_address_def by (simp add: json_eval)

lemma same_canonical_form: "checksumAddress upper_address = checksumAddress lower_address"
proof -
  have "map toLowerCase (drop 2 upper_address) = map toLowerCase (drop 2 lower_address)"
    unfolding upper_address_def lower_address_def by code_simp
  then show ?thesis by (simp add: checksumAddress_def)
qed

lemma handleInspect_query:
  assumes "is_ascii u" and "u \<noteq> []"
    and \<open>JSON_parse (''{"action":"balance","user":"'' @ u @ ''"}'')
           = Some (JObj [(''action'', JStr ''balance''), (''user'', JStr u)])\<close>
  shows "handleInspect bal (balance_query u) = (Accept, [Report (BalanceOf (JStr u) (reported_balance bal (JStr u)))])"
proof -
  have p: "JSON_parse (hexToString (payload (balance_query u)))
             = Some (JObj [(''action'', JStr ''balance''), (''user'', JStr u)])"
    by (simp only: decode_balance_query[OF assms(1)] assms(3))
  show ?thesis
    by (rule handleInspect_balance[OF p _ _ assms(2)]) (simp_all add: get_def)
qed

text \<open>
  Claim C7: the checksummed form of an address is the key every operation uses, so that a
  balance query for any casing of a credited address reports its balance. A deposit is
  credited under the checksummed form of its recipient, but \<open>handleInspect\<close> looks
  \<open>parsed.user\<close> up as it is written. After a deposit of 5 for the address of twenty bytes
  \<open>aa\<close>, whose lower-case and upper-case texts have one and the same checksummed form, the
  balance under that form is 5, and the queries for the two texts do not both report 5.
\<close>

theorem query_misses_case_variant:
  "isAddress lower_address \<and> isAddress upper_address
   \<and> checksumAddress upper_address = checksumAddress lower_address
   \<and> balance_of (fst (snd (handleAdvance [] letters_deposit_request))) (checksumAddress lower_address) = 5
   \<and> \<not> (handleInspect (fst (snd (handleAdvance [] letters_deposit_request))) (balance_query lower_address)
           = (Accept, [Report (BalanceOf (JStr lower_address) (Some 5))])
        \<and> handleInspect (fst (snd (handleAdvance [] letters_deposit_request))) (balance_query upper_address)
           = (Accept, [Report (BalanceOf (JStr upper_address) (Some 5))]))"
proof -
  let ?L = "[(checksumAddress lower_address, 5 :: int)]"
  have a: "isAddress lower_address" "isAddress upper_address"
    unfolding lower_address_def upper_address_def by code_simp+
  have asc: "is_ascii lower_address" "is_ascii upper_address" "lower_address \<noteq> []" "upper_address \<noteq> []"
    unfolding lower_address_def upper_address_def is_ascii_def by simp_all
  have ne: "lower_address \<noteq> upper_address"
    by (simp add: lower_address_def upper_address_def)
  have rep: "reported_balance ?L (JStr u) = Some 5 \<longleftrightarrow> u = checksumAddress lower_address" for u
    by (simp add: reported_balance_def)
  have il: "handleInspect ?L (balance_query lower_address)
              = (Accept, [Report (BalanceOf (JStr lower_address) (reported_balance ?L (JStr lower_address)))])"
    by (rule handleInspect_query[OF asc(1) asc(3) parse_query_lower])
  have iu: "handleInspect ?L (balance_query upper_address)
              = (Accept, [Report (BalanceOf (JStr upper_address) (reported_balance ?L (JStr upper_address)))])"
    by (rule handleInspect_query[OF asc(2) asc(4) parse_query_upper])
  have "\<not> (reported_balance ?L (JStr lower_address) = Some 5 \<and> reported_balance ?L (JStr upper_address) = Some 5)"
    using ne by (simp only: rep) auto
  then show ?thesis
    using a same_canonical_form
    by (simp add: handleAdvance_letters_deposit il iu balance_of_def)
qed

section \<open>Balances are not negative\<close>

lemma pow2_pos: "0 < pow2 k"
  by (simp add: pow2_def)

lemma round_half_even_nonneg: "0 \<le> x \<Longrightarrow> 0 \<le> round_half_even x"
  by (auto simp: round_half_even_def Let_def)

lemma fl_nonneg: "0 \<le> q \<Longrightarrow> nonneg_number (fl q)"
proof -
  assume q: "0 \<le> q"
  show ?thesis
  proof (cases "q = 0")
    case True
    then show ?thesis by (simp add: fl_def nonneg_number_def)
  next
    case False
    with q have pos: "0 < q" by simp
    define u where "u = pow2 (max (ilog2 \<bar>q\<bar>) (- 1022) - 52)"
    have u: "0 < u" by (simp add: u_def pow2_pos)
    have "0 \<le> \<bar>q\<bar> / u" using u by simp
    then have "0 \<le> round_half_even (\<bar>q\<bar> / u)" by (rule round_half_even_nonneg)
    then have "0 \<le> of_int (round_half_even (\<bar>q\<bar> / u)) * u" using u by simp
    then show ?thesis
      using pos by (simp add: fl_def Let_def nonneg_number_def u_def)
  qed
qed

lemma js_add_nonneg:
  "nonneg_number a \<Longrightarrow> nonneg_number b \<Longrightarrow> nonneg_number (js_add a b)"
proof (cases a; cases b)
  fix x y assume "a = Fin x" "b = Fin y" "nonneg_number a" "nonneg_number b"
  then have "0 \<le> x + y" by (simp add: nonneg_number_def)
  then have "nonneg_number (fl (x + y))" by (rule fl_nonneg)
  then show "nonneg_number (js_add a b)"
    using \<open>a = Fin x\<close> \<open>b = Fin y\<close> by (simp add: js_add_def)
qed (simp_all add: js_add_def nonneg_number_def)

lemma js_sub_nonneg:
  assumes "nonneg_number b" and "0 \<le> y" and "\<not> js_lt b (Fin y)"
  shows "nonneg_number (js_sub b (Fin y))"
proof (cases b)
  case (Fin x)
  with assms(3) have "0 \<le> x + - y" by (simp add: js_lt_def)
  then have "nonneg_number (fl (x + - y))" by (rule fl_nonneg)
  then show ?thesis
    using Fin by (simp add: js_sub_def js_add_def js_neg_def)
qed (use assms in \<open>simp_all add: js_sub_def js_add_def js_neg_def js_lt_def nonneg_number_def\<close>)

lemma list_all_update:
  "list_all P al \<Longrightarrow> P (k, v) \<Longrightarrow> list_all P (AList.update k v al)"
  by (induction al) auto

lemma never_negative_update:
  "never_negative bal \<Longrightarrow> nonneg_number v \<Longrightarrow> never_negative (AList.update k v bal)"
  by (simp add: never_negative_def list_all_update)

lemma all_nonneg_update: "all_nonneg bal \<Longrightarrow> 0 \<le> v \<Longrightarrow> all_nonneg (AList.update k v bal)"
  by (simp add: all_nonneg_def list_all_update)

lemma never_negative_lookup: "never_negative bal \<Longrightarrow> nonneg_number (number_balance_of bal k)"
proof -
  assume n: "never_negative bal"
  show ?thesis
  proof (cases "map_of bal k")
    case None
    then show ?thesis by (simp add: number_balance_of_def nonneg_number_def)
  next
    case (Some v)
    then have "(k, v) \<in> set bal" by (rule map_of_SomeD)
    with n have "nonneg_number v" by (auto simp: never_negative_def list_all_iff)
    with Some show ?thesis by (simp add: number_balance_of_def nonneg_number_def)
  qed
qed

lemma all_nonneg_lookup: "all_nonneg bal \<Longrightarrow> 0 \<le> balance_of bal k"
proof -
  assume n: "all_nonneg bal"
  show ?thesis
  proof (cases "map_of bal k")
    case None
    then show ?thesis by (simp add: balance_of_def)
  next
    case (Some v)
    then have "(k, v) \<in> set bal" by (rule map_of_SomeD)
    with n have "0 \<le> v" by (auto simp: all_nonneg_def list_all_iff)
    with Some show ?thesis by (simp add: balance_of_def)
  qed
qed

lemma all_nonneg_deposited: "all_nonneg bal \<Longrightarrow> 0 \<le> a \<Longrightarrow> all_nonneg (deposited bal r a)"
  by (simp add: deposited_def Let_def all_nonneg_update all_nonneg_lookup)

lemma handleAdvance_all_nonneg:
  assumes "all_nonneg bal"
  shows "all_nonneg (fst (snd (handleAdvance bal req)))"
proof (cases "is_json_object (JSON_parse (hexToString (payload req)))")
  case True
  then obtain p where p: "JSON_parse (hexToString (payload req)) = Some p" "truthy p" "typeof_object p"
    by (auto simp: is_json_object_def split: option.splits)
  show ?thesis
    using advance_json_cases[of bal "hexToString (payload req)" p] assms
    by (auto simp: handleAdvance_json[OF p] all_nonneg_update)
next
  case False
  show ?thesis
    using advance_deposit_cases[of bal req] assms
    by (auto simp: handleAdvance_not_json[OF False] all_nonneg_deposited)
qed

lemma ledger_after_all_nonneg: "all_nonneg bal \<Longrightarrow> all_nonneg (ledger_after bal requests)"
  unfolding ledger_after_def
  by (induction requests arbitrary: bal) (simp_all add: handleAdvance_all_nonneg)

lemma handleAdvance_reject:
  "fst (handleAdvance bal req) = Reject \<Longrightarrow>
     \<exists>e. handleAdvance bal req = (Reject, bal, [Report (ErrorMessage e)])"
  by (auto simp: handleAdvance_def Let_def split: option.splits sum.splits if_splits)

lemma amount_finite_nonnegD:
  "amount_finite_nonneg p \<Longrightarrow> get p ''amount'' = Some (JNum a) \<Longrightarrow> \<exists>y. a = Fin y \<and> 0 \<le> y"
  by (cases a) (simp_all add: amount_finite_nonneg_def)

lemma actions_processDeposit_never_negative:
  assumes "never_negative bal" and "amount_finite_nonneg parsed"
    and "actions_processDeposit bal parsed = Some (Inr bal')"
  shows "never_negative bal'"
proof -
  from assms(3) obtain k a where ka: "get parsed ''sender'' = Some (JStr k)" "get parsed ''amount'' = Some (JNum a)"
    by (auto simp: actions_processDeposit_def Let_def split: if_splits option.splits json.splits)
  from amount_finite_nonnegD[OF assms(2) ka(2)] have a: "nonneg_number a"
    by (auto simp: nonneg_number_def)
  define bal1 where "bal1 = (if no_balance bal k then AList.update k (Fin 0) bal else bal)"
  have n1: "never_negative bal1"
    using assms(1) by (simp add: bal1_def never_negative_update nonneg_number_def)
  have "bal' = AList.update k (js_add (number_balance_of bal1 k) a) bal1"
    using assms(3) ka by (auto simp: actions_processDeposit_def Let_def bal1_def split: if_splits)
  then show ?thesis
    using n1 a by (simp add: never_negative_update js_add_nonneg never_negative_lookup)
qed

lemma actions_processTransfer_never_negative:
  assumes "never_negative bal" and "amount_finite_nonneg parsed"
    and "actions_processTransfer bal parsed = Some (Inr bal')"
  shows "never_negative bal'"
proof -
  from assms(3) obtain f t a where fta: "get parsed ''from'' = Some (JStr f)"
      "get parsed ''to'' = Some (JStr t)" "get parsed ''amount'' = Some (JNum a)"
    by (auto simp: actions_processTransfer_def Let_def split: if_splits option.splits json.splits)
  from amount_finite_nonnegD[OF assms(2) fta(3)] obtain y where y: "a = Fin y" "0 \<le> y" by blast
  then have a: "nonneg_number a" by (simp add: nonneg_number_def)
  define bal1 where "bal1 = AList.update f (js_sub (number_balance_of bal f) a) bal"
  define bal2 where "bal2 = (if no_balance bal1 t then AList.update t (Fin 0) bal1 else bal1)"
  from assms(3) fta have ok: "\<not> js_lt (number_balance_of bal f) a"
    and b': "bal' = AList.update t (js_add (number_balance_of bal2 t) a) bal2"
    by (auto simp: actions_processTransfer_def Let_def bal1_def bal2_def split: if_splits)
  have "nonneg_number (js_sub (number_balance_of bal f) (Fin y))"
    using never_negative_lookup[OF assms(1)] y(2) ok[unfolded y(1)] by (rule js_sub_nonneg)
  then have n1: "never_negative bal1"
    using assms(1) by (simp add: bal1_def y(1) never_negative_update)
  then have n2: "never_negative bal2"
    by (simp add: bal2_def never_negative_update nonneg_number_def)
  show ?thesis
    using n2 a by (simp add: b' never_negative_update js_add_nonneg never_negative_lookup)
qed

lemma actions_handleAdvance_reject:
  "actions_handleAdvance bal req = Some (Reject, bal', events) \<Longrightarrow>
     bal' = bal \<and> (\<exists>e. events = [Report (ErrorMessage e)])"
  by (auto simp: actions_handleAdvance_def Let_def
      split: option.splits sum.splits if_splits json.splits)

lemma actions_handleAdvance_never_negative:
  assumes "never_negative bal"
    and "JSON_parse (hexToString (payload req)) = Some p" and "amount_finite_nonneg p"
    and "actions_handleAdvance bal req = Some (st, bal', events)"
  shows "never_negative bal'"
proof -
  consider (dep) "get p ''action'' = Some (JStr ''deposit'')"
    | (tr) "get p ''action'' \<noteq> Some (JStr ''deposit'')" "get p ''action'' = Some (JStr ''transfer'')"
    | (other) "get p ''action'' \<noteq> Some (JStr ''deposit'')" "get p ''action'' \<noteq> Some (JStr ''transfer'')"
    by blast
  then show ?thesis
  proof cases
    case dep
    then have pn: "p \<noteq> JNull" by (auto simp: get_def)
    show ?thesis
    proof (cases "actions_processDeposit bal p")
      case None
      with assms(2,4) dep pn show ?thesis
        by (cases p) (simp_all add: actions_handleAdvance_def)
    next
      case (Some r)
      show ?thesis
      proof (cases r)
        case (Inl e)
        with Some assms(2,4) dep pn have "bal' = bal"
          by (cases p) (auto simp: actions_handleAdvance_def)
        with assms(1) show ?thesis by simp
      next
        case (Inr b)
        with Some assms(2,4) dep pn have "bal' = b"
          by (cases p) (auto simp: actions_handleAdvance_def split: option.splits json.splits)
        with Some Inr assms(1,3) show ?thesis
          by (auto intro: actions_processDeposit_never_negative)
      qed
    qed
  next
    case tr
    then have pn: "p \<noteq> JNull" by (auto simp: get_def)
    show ?thesis
    proof (cases "actions_processTransfer bal p")
      case None
      with assms(2,4) tr pn show ?thesis
        by (cases p) (simp_all add: actions_handleAdvance_def)
    next
      case (Some r)
      show ?thesis
      proof (cases r)
        case (Inl e)
        with Some assms(2,4) tr pn have "bal' = bal"
          by (cases p) (auto simp: actions_handleAdvance_def)
        with assms(1) show ?thesis by simp
      next
        case (Inr b)
        with Some assms(2,4) tr pn have "bal' = b"
          by (cases p) (auto simp: actions_handleAdvance_def split: option.splits json.splits)
        with Some Inr assms(1,3) show ?thesis
          by (auto intro: actions_processTransfer_never_negative)
      qed
    qed
  next
    case other
    with assms(2,4) have "bal' = bal"
      by (cases p) (auto simp: actions_handleAdvance_def)
    with assms(1) show ?thesis by simp
  qed
qed

text \<open>On a plain input the two operations come to an end: with an error or with a ledger.\<close>

lemma actions_processDeposit_plain:
  "plain_input p \<Longrightarrow> \<exists>r. actions_processDeposit bal p = Some r"
  by (auto simp: actions_processDeposit_def plain_input_def plain_key_def Let_def truthy_opt_def
      is_nullish_def split: option.splits json.splits)

lemma actions_processTransfer_plain:
  "plain_input p \<Longrightarrow> \<exists>r. actions_processTransfer bal p = Some r"
  by (auto simp: actions_processTransfer_def plain_input_def plain_key_def Let_def truthy_opt_def
      is_nullish_def split: option.splits json.splits)

lemma actions_handleAdvance_plain:
  assumes "JSON_parse (hexToString (payload req)) = Some p" and "plain_input p"
  shows "\<exists>st bal' events. actions_handleAdvance bal req = Some (st, bal', events)"
proof -
  consider (dep) "get p ''action'' = Some (JStr ''deposit'')"
    | (tr) "get p ''action'' \<noteq> Some (JStr ''deposit'')" "get p ''action'' = Some (JStr ''transfer'')"
    | (other) "get p ''action'' \<noteq> Some (JStr ''deposit'')" "get p ''action'' \<noteq> Some (JStr ''transfer'')"
    by blast
  then show ?thesis
  proof cases
    case dep
    then have pn: "p \<noteq> JNull" by (auto simp: get_def)
    from actions_processDeposit_plain[OF assms(2)] obtain r where r: "actions_processDeposit bal p = Some r"
      by blast
    show ?thesis
    proof (cases r)
      case (Inl e)
      with r assms(1) dep pn show ?thesis
        by (cases p) (auto simp: actions_handleAdvance_def)
    next
      case (Inr b)
      with r obtain k where "get p ''sender'' = Some (JStr k)"
        by (auto simp: actions_processDeposit_def Let_def split: if_splits option.splits json.splits)
      with Inr r assms(1) dep pn show ?thesis
        by (cases p) (auto simp: actions_handleAdvance_def)
    qed
  next
    case tr
    then have pn: "p \<noteq> JNull" by (auto simp: get_def)
    from actions_processTransfer_plain[OF assms(2)] obtain r where r: "actions_processTransfer bal p = Some r"
      by blast
    show ?thesis
    proof (cases r)
      case (Inl e)
      with r assms(1) tr pn show ?thesis
        by (cases p) (auto simp: actions_handleAdvance_def)
    next
      case (Inr b)
      with r obtain f t a where "get p ''from'' = Some (JStr f)" "get p ''to'' = Some (JStr t)"
          "get p ''amount'' = Some (JNum a)"
        by (auto simp: actions_processTransfer_def Let_def split: if_splits option.splits json.splits)
      with Inr r assms(1) tr pn show ?thesis
        by (cases p) (auto simp: actions_handleAdvance_def)
    qed
  next
    case other
    with assms(1) show ?thesis
      by (cases p) (auto simp: actions_handleAdvance_def)
  qed
qed

text \<open>
  Claim C5, as amended. In the node with vouchers no balance of a ledger reached from the
  empty one is negative, and an input that is rejected changes no balance. In the node for
  JSON actions a payload that is not JSON is rejected and changes no balance; an input whose
  \<open>sender\<close>, \<open>from\<close> and \<open>to\<close> are strings that name no inherited member and whose \<open>amount\<close> is a
  number is handled to its end, changes no balance when it is rejected (a transfer without
  the funds, for one) and, when its amount is finite and not negative, takes a ledger whose
  balances are all numbers from 0 on to a ledger of that kind.
\<close>

theorem balances_stay_nonnegative:
  "all_nonneg (ledger_after [] requests)
   \<and> (fst (handleAdvance bal req) = Reject \<longrightarrow> fst (snd (handleAdvance bal req)) = bal)
   \<and> (JSON_parse (hexToString (payload req')) = None \<longrightarrow>
        actions_handleAdvance nbal req' = Some (Reject, nbal, [Report (ErrorMessage SyntaxError)]))
   \<and> (JSON_parse (hexToString (payload req')) = Some p \<and> plain_input p \<longrightarrow>
        (\<exists>st nbal' events. actions_handleAdvance nbal req' = Some (st, nbal', events)
           \<and> (st = Reject \<longrightarrow> nbal' = nbal)
           \<and> (never_negative nbal \<and> amount_finite_nonneg p \<longrightarrow> never_negative nbal')))"
proof (intro conjI impI)
  show "all_nonneg (ledger_after [] requests)"
    by (rule ledger_after_all_nonneg) (simp add: all_nonneg_def)
  show "fst (snd (handleAdvance bal req)) = bal" if "fst (handleAdvance bal req) = Reject"
    using handleAdvance_reject[OF that] by auto
  show "actions_handleAdvance nbal req' = Some (Reject, nbal, [Report (ErrorMessage SyntaxError)])"
    if "JSON_parse (hexToString (payload req')) = None"
    using that by (simp add: actions_handleAdvance_def)
next
  assume a: "JSON_parse (hexToString (payload req')) = Some p \<and> plain_input p"
  then obtain st nbal' events where h: "actions_handleAdvance nbal req' = Some (st, nbal', events)"
    using actions_handleAdvance_plain[of req' p nbal] by blast
  have r: "st = Reject \<longrightarrow> nbal' = nbal"
    using h actions_handleAdvance_reject[of nbal req' nbal' events] by blast
  have n: "never_negative nbal \<and> amount_finite_nonneg p \<longrightarrow> never_negative nbal'"
    using a h actions_handleAdvance_never_negative[of nbal req' p st nbal' events] by blast
  show "\<exists>st nbal' events. actions_handleAdvance nbal req' = Some (st, nbal', events)
           \<and> (st = Reject \<longrightarrow> nbal' = nbal)
           \<and> (never_negative nbal \<and> amount_finite_nonneg p \<longrightarrow> never_negative nbal')"
    using h r n by blast
qed

lemma actions_deposit_alice_minus_100:
  "actions_handleAdvance [] (action_request deposit_alice_minus_100)
     = Some (Accept, [(''alice'', Fin (- 100))], [Notice (SenderDepositOK ''alice'' (Some (Fin (- 100))))])"
proof -
  have p: "JSON_parse (hexToString (payload (action_request deposit_alice_minus_100)))
     = Some (JObj [(''action'', JStr ''deposit''), (''sender'', JStr ''alice''), (''amount'', JNum (Fin (- 100)))])"
    unfolding action_request_def deposit_alice_minus_100_def
    by (simp add: hexToString_ascii is_ascii_def json_eval)
  show ?thesis
    by (simp add: actions_handleAdvance_def p get_def actions_processDeposit_def truthy_opt_def truthy_def
        is_nullish_def prototype_keys_def no_balance_def number_balance_of_def num_truthy_def
        js_add_def fl_neg_numeral)
qed

text \<open>
  Claim C5 as it is written says that no balance is ever negative. The node for JSON actions
  accepts a deposit of \<open>-100\<close> for a new sender, whose balance is then \<open>-100\<close>.
\<close>

theorem negative_deposit_counterexample:
  "actions_handleAdvance [] (action_request deposit_alice_minus_100)
     = Some (Accept, [(''alice'', Fin (- 100))], [Notice (SenderDepositOK ''alice'' (Some (Fin (- 100))))])
   \<and> js_lt (number_balance_of [(''alice'', Fin (- 100))] ''alice'') (Fin 0)
   \<and> \<not> never_negative [(''alice'', Fin (- 100))]"
  by (simp add: actions_deposit_alice_minus_100 number_balance_of_def num_truthy_def js_lt_def
      never_negative_def nonneg_number_def)

lemma handleAdvance_short: "handleAdvance bal \<lparr>payload = [], metadata = None\<rparr>
    = (Reject, bal, [Report (ErrorMessage (ErrorParsingDeposit PayloadTooShort))])"
proof -
  have "\<not> is_json_object (JSON_parse (hexToString (payload \<lparr>payload = [], metadata = None\<rparr>)))"
    by code_simp
  then show ?thesis
    by (simp add: handleAdvance_not_json advance_deposit_def parseDepositPayload_def)
qed

lemma parse_transfer_alice_bob_50:
  "JSON_parse (hexToString (payload (action_request transfer_alice_bob_50)))
     = Some (JObj [(''action'', JStr ''transfer''), (''from'', JStr ''alice''), (''to'', JStr ''bob''),
                   (''amount'', JNum (Fin 50))])"
  unfolding action_request_def transfer_alice_bob_50_def
  by (simp add: hexToString_ascii is_ascii_def json_eval)

lemma parse_transfer_alice_bob_0:
  "JSON_parse (hexToString (payload (action_request transfer_alice_bob_0)))
     = Some (JObj [(''action'', JStr ''transfer''), (''from'', JStr ''alice''), (''to'', JStr ''bob''),
                   (''amount'', JNum (Fin 0))])"
  unfolding action_request_def transfer_alice_bob_0_def
  by (simp add: hexToString_ascii is_ascii_def json_eval)

lemmas actions_eval = actions_handleAdvance_def actions_processDeposit_def actions_processTransfer_def
  get_def truthy_opt_def truthy_def is_nullish_def prototype_keys_def no_balance_def
  number_balance_of_def num_truthy_def js_add_def js_sub_def js_neg_def js_lt_def
  fl_numeral fl_neg_numeral fl_zero

lemma actions_transfer_without_funds:
  "actions_handleAdvance [] (action_request transfer_alice_bob_50)
     = Some (Reject, [], [Report (ErrorMessage InsufficientBalance)])"
  by (simp add: parse_transfer_alice_bob_50 actions_eval)

lemma plain_deposit_alice_75:
  "plain_input (JObj [(''action'', JStr ''deposit''), (''sender'', JStr ''alice''), (''amount'', JNum (Fin 75))])"
  "amount_finite_nonneg (JObj [(''action'', JStr ''deposit''), (''sender'', JStr ''alice''), (''amount'', JNum (Fin 75))])"
  by (simp_all add: plain_input_def plain_key_def amount_finite_nonneg_def get_def prototype_keys_def)

lemma plain_transfer_alice_bob_50:
  "plain_input (JObj [(''action'', JStr ''transfer''), (''from'', JStr ''alice''), (''to'', JStr ''bob''),
                   (''amount'', JNum (Fin 50))])"
  by (simp add: plain_input_def plain_key_def get_def prototype_keys_def)

text \<open>
  The amended claim C5 at two deposits, at a rejected empty payload, at a payload that is not
  JSON, at a JSON deposit of 75 and at a transfer without funds.
\<close>

theorem balances_stay_nonnegative_witness:
  "all_nonneg (ledger_after [] [big_deposit_request, big_deposit_request])
   \<and> fst (handleAdvance [] \<lparr>payload = [], metadata = None\<rparr>) = Reject
   \<and> fst (snd (handleAdvance [] \<lparr>payload = [], metadata = None\<rparr>)) = []
   \<and> JSON_parse (hexToString (payload malformed_request)) = None
   \<and> actions_handleAdvance [] malformed_request = Some (Reject, [], [Report (ErrorMessage SyntaxError)])
   \<and> never_negative []
   \<and> actions_handleAdvance [] (action_request deposit_alice_75)
       = Some (Accept, [(''alice'', Fin 75)], [Notice (SenderDepositOK ''alice'' (Some (Fin 75)))])
   \<and> never_negative [(''alice'', Fin 75)]
   \<and> actions_handleAdvance [] (action_request transfer_alice_bob_50)
       = Some (Reject, [], [Report (ErrorMessage InsufficientBalance)])"
proof -
  have n: "never_negative []" by (simp add: never_negative_def)
  have r: "fst (handleAdvance [] \<lparr>payload = [], metadata = None\<rparr>) = Reject"
    by (simp add: handleAdvance_short)
  have m: "JSON_parse (hexToString (payload malformed_request)) = None"
    unfolding malformed_request_def action_request_def
    by (simp add: hexToString_ascii is_ascii_def json_eval)
  note t1 = balances_stay_nonnegative[of "[big_deposit_request, big_deposit_request]" "[]"
      "\<lparr>payload = [], metadata = None\<rparr>" "action_request deposit_alice_75" "[]"
      "JObj [(''action'', JStr ''deposit''), (''sender'', JStr ''alice''), (''amount'', JNum (Fin 75))]"]
  note t2 = balances_stay_nonnegative[of "[]" "[]"
      "\<lparr>payload = [], metadata = None\<rparr>" "malformed_request" "[]" JNull]
  have first: "all_nonneg (ledger_after [] [big_deposit_request, big_deposit_request])"
    using t1 by blast
  have second: "fst (snd (handleAdvance [] \<lparr>payload = [], metadata = None\<rparr>)) = []"
    using t1 r by blast
  have third: "actions_handleAdvance [] malformed_request = Some (Reject, [], [Report (ErrorMessage SyntaxError)])"
    using t2 m by blast
  have "\<exists>st nbal' events. actions_handleAdvance [] (action_request deposit_alice_75) = Some (st, nbal', events)
           \<and> never_negative nbal'"
    using t1 parse_deposit_alice_75 plain_deposit_alice_75 n by blast
  then have fourth: "never_negative [(''alice'', Fin 75)]"
    by (auto simp: actions_deposit_alice_75)
  show ?thesis
    using first r second m third n actions_deposit_alice_75 fourth actions_transfer_without_funds
    by simp
qed

section \<open>Transfers\<close>

lemma map_of_update_eq: "map_of (AList.update k v al) k' = (if k' = k then Some v else map_of al k')"
  by (simp add: update_conv')

lemma no_balance_zero: "no_balance bal k \<Longrightarrow> number_balance_of bal k = Fin 0"
  by (auto simp: no_balance_def number_balance_of_def split: option.splits)

text \<open>
  Claim C4, as amended. A transfer whose \<open>from\<close> and \<open>to\<close> are strings that are not empty and name
  no inherited member (\<open>constructor\<close>, \<open>toString\<close> and the like) and whose \<open>amount\<close> is a number
  is refused for insufficient balance when the balance of \<open>from\<close> is below the amount, and also
  when that balance is zero, not a number or missing, whatever the amount; the ledger is then
  left as it was and the error is reported. Otherwise the transfer is accepted, the balance
  of \<open>from\<close> is debited and that of \<open>to\<close> credited by the amount, and every other balance is
  what it was.
\<close>

theorem transfer_all_or_nothing:
  assumes "JSON_parse (hexToString (payload req)) = Some p"
    and "get p ''action'' = Some (JStr ''transfer'')"
    and "get p ''from'' = Some (JStr f)" and "get p ''to'' = Some (JStr t)"
    and "get p ''amount'' = Some (JNum a)"
    and "f \<noteq> []" and "t \<noteq> []" and "f \<notin> set prototype_keys" and "t \<notin> set prototype_keys"
  shows "(no_balance bal f \<or> js_lt (number_balance_of bal f) a \<longrightarrow>
            actions_handleAdvance bal req = Some (Reject, bal, [Report (ErrorMessage InsufficientBalance)]))
       \<and> (\<not> no_balance bal f \<and> \<not> js_lt (number_balance_of bal f) a \<longrightarrow>
            (\<exists>bal'. actions_handleAdvance bal req = Some (Accept, bal', [Notice (TransferOK f t a)])
               \<and> map_of bal' k =
                   (if k = t then
                      Some (js_add (number_balance_of (AList.update f (js_sub (number_balance_of bal f) a) bal) t) a)
                    else if k = f then Some (js_sub (number_balance_of bal f) a)
                    else map_of bal k)
               \<and> (f \<noteq> t \<longrightarrow> map_of bal' t = Some (js_add (number_balance_of bal t) a))))"
proof -
  have pn: "p \<noteq> JNull" using assms(2) by (auto simp: get_def)
  have h: "actions_handleAdvance bal req =
             (case actions_processTransfer bal p of
                None \<Rightarrow> None
              | Some (Inl err) \<Rightarrow> Some (Reject, bal, [Report (ErrorMessage err)])
              | Some (Inr bal') \<Rightarrow> Some (Accept, bal', [Notice (TransferOK f t a)]))"
    using assms(1-5) pn
    by (cases p) (auto simp: actions_handleAdvance_def split: option.splits sum.splits)
  have tr: "truthy_opt (get p ''from'')" "truthy_opt (get p ''to'')" "\<not> is_nullish (get p ''amount'')"
    using assms(3-7) by (simp_all add: truthy_opt_def truthy_def is_nullish_def)
  let ?bal1 = "AList.update f (js_sub (number_balance_of bal f) a) bal"
  let ?bal2 = "if no_balance ?bal1 t then AList.update t (Fin 0) ?bal1 else ?bal1"
  let ?bal' = "AList.update t (js_add (number_balance_of ?bal2 t) a) ?bal2"
  have pt: "actions_processTransfer bal p =
              (if no_balance bal f \<or> js_lt (number_balance_of bal f) a then Some (Inl InsufficientBalance)
               else Some (Inr ?bal'))"
    using assms(3-5,8,9) tr by (simp add: actions_processTransfer_def Let_def)
  have base: "number_balance_of ?bal2 t = number_balance_of ?bal1 t"
  proof (cases "no_balance ?bal1 t")
    case True
    then have "number_balance_of ?bal1 t = Fin 0" by (rule no_balance_zero)
    with True show ?thesis
      by (simp add: number_balance_of_update num_truthy_def del: AList.update.simps)
  next
    case False
    then show ?thesis by simp
  qed
  have look: "map_of ?bal' k =
                   (if k = t then Some (js_add (number_balance_of ?bal1 t) a)
                    else if k = f then Some (js_sub (number_balance_of bal f) a)
                    else map_of bal k)"
    by (simp add: map_of_update_eq base del: AList.update.simps)
  have other: "f \<noteq> t \<Longrightarrow> map_of ?bal' t = Some (js_add (number_balance_of bal t) a)"
    by (simp add: map_of_update_eq base number_balance_of_update)
  show ?thesis
    using look other by (auto simp: h pt simp del: AList.update.simps)
qed

text \<open>
  Claim C4 as it is written refuses a transfer only when the balance is below the amount. A
  transfer of 0 from a sender the ledger has not seen is refused, though 0 is not below 0.
\<close>

theorem transfer_counterexample:
  "\<not> js_lt (number_balance_of [] ''alice'') (Fin 0)
   \<and> actions_handleAdvance [] (action_request transfer_alice_bob_0)
       = Some (Reject, [], [Report (ErrorMessage InsufficientBalance)])"
  by (simp add: parse_transfer_alice_bob_0 actions_eval)

text \<open>The amended claim C4 at a transfer of 50 without funds and at one from a balance of 75.\<close>

theorem transfer_all_or_nothing_witness:
  "actions_handleAdvance [] (action_request transfer_alice_bob_50)
     = Some (Reject, [], [Report (ErrorMessage InsufficientBalance)])
   \<and> actions_handleAdvance [(''alice'', Fin 75)] (action_request transfer_alice_bob_50)
       = Some (Accept, [(''alice'', Fin 25), (''bob'', Fin 50)], [Notice (TransferOK ''alice'' ''bob'' (Fin 50))])
   \<and> map_of [(''alice'', Fin 25), (''bob'', Fin 50)] ''alice'' = Some (js_sub (Fin 75) (Fin 50))
   \<and> map_of [(''alice'', Fin 25), (''bob'', Fin 50)] ''bob'' = Some (js_add (Fin 0) (Fin 50))"
proof -
  let ?p = "JObj [(''action'', JStr ''transfer''), (''from'', JStr ''alice''), (''to'', JStr ''bob''),
                   (''amount'', JNum (Fin 50))]"
  have g: "get ?p ''action'' = Some (JStr ''transfer'')" "get ?p ''from'' = Some (JStr ''alice'')"
    "get ?p ''to'' = Some (JStr ''bob'')" "get ?p ''amount'' = Some (JNum (Fin 50))"
    by (simp_all add: get_def)
  have k: "''alice'' \<noteq> []" "''bob'' \<noteq> []" "''alice'' \<notin> set prototype_keys" "''bob'' \<notin> set prototype_keys"
    by (simp_all add: prototype_keys_def)
  note t = transfer_all_or_nothing[OF parse_transfer_alice_bob_50 g k]
  have e1: "no_balance [] ''alice''" by (simp add: no_balance_def)
  have e2: "\<not> no_balance [(''alice'', Fin 75)] ''alice''"
    "\<not> js_lt (number_balance_of [(''alice'', Fin 75)] ''alice'') (Fin 50)"
    by (simp_all add: no_balance_def number_balance_of_def num_truthy_def js_lt_def)
  have first: "actions_handleAdvance [] (action_request transfer_alice_bob_50)
     = Some (Reject, [], [Report (ErrorMessage InsufficientBalance)])"
    using t[of "[]"] e1 by simp
  have v: "actions_handleAdvance [(''alice'', Fin 75)] (action_request transfer_alice_bob_50)
       = Some (Accept, [(''alice'', Fin 25), (''bob'', Fin 50)], [Notice (TransferOK ''alice'' ''bob'' (Fin 50))])"
    by (simp add: parse_transfer_alice_bob_50 actions_eval)
  have "\<exists>bal'. actions_handleAdvance [(''alice'', Fin 75)] (action_request transfer_alice_bob_50)
             = Some (Accept, bal', [Notice (TransferOK ''alice'' ''bob'' (Fin 50))])
          \<and> map_of bal' ''alice'' = Some (js_sub (number_balance_of [(''alice'', Fin 75)] ''alice'') (Fin 50))"
    using t[of "[(''alice'', Fin 75)]" "''alice''"] e2 by auto
  then have second: "map_of [(''alice'', Fin 25), (''bob'', Fin 50)] ''alice'' = Some (js_sub (Fin 75) (Fin 50))"
    by (auto simp: v number_balance_of_def num_truthy_def)
  have third: "map_of [(''alice'', Fin 25), (''bob'', Fin 50)] ''bob'' = Some (js_add (Fin 0) (Fin 50))"
    by (simp add: js_add_def fl_numeral)
  show ?thesis using first v second third by simp
qed

section \<open>Errors\<close>

lemma parse_malformed: "JSON_parse (hexToString (payload malformed_request)) = None"
  unfolding malformed_request_def action_request_def
  by (simp add: hexToString_ascii is_ascii_def json_eval)

lemma handleInspect_reject:
  "fst (handleInspect bal req) = Reject \<Longrightarrow> \<exists>e. handleInspect bal req = (Reject, [Report (ErrorMessage e)])"
  by (auto simp: handleInspect_def Let_def split: option.splits json.splits if_splits)

lemma index_handleAdvance_reject:
  "fst (index_handleAdvance bal req) = Reject \<Longrightarrow>
     \<exists>e. index_handleAdvance bal req = (Reject, bal, [Report (ErrorMessage e)])"
  by (auto simp: index_handleAdvance_def Let_def split: option.splits sum.splits)

text \<open>
  In the node with vouchers and in the node for deposits only, an input that is rejected is
  answered by exactly one report, that of its error, and changes no balance; so is a
  rejected Advance input of the node for JSON actions.
\<close>

lemma errors_are_reported:
  "(fst (handleAdvance bal req) = Reject \<longrightarrow> (\<exists>e. handleAdvance bal req = (Reject, bal, [Report (ErrorMessage e)])))
   \<and> (fst (handleInspect bal req) = Reject \<longrightarrow> (\<exists>e. handleInspect bal req = (Reject, [Report (ErrorMessage e)])))
   \<and> (fst (index_handleAdvance bal req) = Reject \<longrightarrow>
        (\<exists>e. index_handleAdvance bal req = (Reject, bal, [Report (ErrorMessage e)])))
   \<and> (actions_handleAdvance nbal req = Some (Reject, nbal', events) \<longrightarrow>
        nbal' = nbal \<and> (\<exists>e. events = [Report (ErrorMessage e)]))"
  using handleAdvance_reject[of bal req] handleInspect_reject[of bal req]
    index_handleAdvance_reject[of bal req] actions_handleAdvance_reject[of nbal req nbal' events]
  by blast

text \<open>
  Claim C8: every error raised while an input is handled is caught by the handler, reported
  to the host in a message, and answered by \<open>"reject"\<close>. \<open>handleInspect\<close> of the node for JSON
  actions catches the error and rejects, but sends no report: for a payload that is not
  JSON it returns \<open>"reject"\<close> with no output at all, where \<open>handleAdvance\<close> of the same file
  and \<open>handleInspect\<close> of the node with vouchers report the syntax error.
\<close>

theorem inspect_error_without_report:
  "actions_handleInspect [] malformed_request = (Reject, [])
   \<and> actions_handleAdvance [] malformed_request = Some (Reject, [], [Report (ErrorMessage SyntaxError)])
   \<and> handleInspect [] malformed_request = (Reject, [Report (ErrorMessage SyntaxError)])"
  by (simp add: actions_handleInspect_def actions_handleAdvance_def handleInspect_def parse_malformed)

section \<open>The request loop\<close>

lemma finish_statuses_Emit: "finish_statuses (map Emit events @ calls) = finish_statuses calls"
  by (induction events) (simp_all add: finish_statuses_def)

lemma finish_statuses_Finish: "finish_statuses (Finish s # calls) = s # finish_statuses calls"
  by (simp add: finish_statuses_def)

text \<open>
  The loop of the node with vouchers (and of \<open>src/index.js\<close>): every call of \<open>/finish\<close> sends the
  current status; after the answer 202 the next call sends the same status; after a request
  it sends the status its handler returned; a request of an unknown type leaves the
  status as it is.
\<close>

lemma mainLoop_statuses:
  "finish_statuses (mainLoop s bal []) = [s]"
  "finish_statuses (mainLoop s bal (NoInput # rs)) = s # finish_statuses (mainLoop s bal rs)"
  "finish_statuses (mainLoop s bal (Request ''advance_state'' d # rs))
     = s # finish_statuses (mainLoop (fst (handleAdvance bal d)) (fst (snd (handleAdvance bal d))) rs)"
  "finish_statuses (mainLoop s bal (Request ''inspect_state'' d # rs))
     = s # finish_statuses (mainLoop (fst (handleInspect bal d)) bal rs)"
  "t \<noteq> ''advance_state'' \<Longrightarrow> t \<noteq> ''inspect_state'' \<Longrightarrow>
     finish_statuses (mainLoop s bal (Request t d # rs)) = s # finish_statuses (mainLoop s bal rs)"
  by (simp_all add: finish_statuses_Finish finish_statuses_Emit split: prod.splits)
     (simp add: finish_statuses_def)

lemma handleAdvance_malformed:
  "handleAdvance bal malformed_request = (Reject, bal, [Report (ErrorMessage (ErrorParsingDeposit PayloadTooShort))])"
proof -
  have "\<not> is_json_object (JSON_parse (hexToString (payload malformed_request)))"
    by (simp add: parse_malformed is_json_object_def)
  moreover have "length (payload malformed_request) < 52"
    by (simp add: malformed_request_def action_request_def stringToBytes_def)
  ultimately show ?thesis
    by (simp add: handleAdvance_not_json advance_deposit_def parseDepositPayload_def)
qed

text \<open>
  Claim C9: the status sent with the call of \<open>/finish\<close> that asks for the next input is the one
  the handler returned for the previous input, \<open>"accept"\<close> at the first call, and the same status
  again after the answer 202. The loop of the node for JSON actions sends the handler's status
  in a second call of \<open>/finish\<close>, whose answer it does not read, and asks for every next input
  with \<open>"accept"\<close>: after a rejected input its calls are accept, reject, accept, accept, where the
  loop of the node with vouchers sends accept, reject, reject.
\<close>

theorem actions_loop_asks_with_accept:
  "actions_mainLoop [] [Request ''advance_state'' malformed_request, NoInput, NoInput]
     = Some [Finish Accept, Emit (Report (ErrorMessage SyntaxError)), Finish Reject, Finish Accept, Finish Accept]
   \<and> run_node [Request ''advance_state'' malformed_request, NoInput, NoInput]
       = [Finish Accept, Emit (Report (ErrorMessage (ErrorParsingDeposit PayloadTooShort))),
          Finish Reject, Finish Reject, Finish Reject]"
  by (simp add: run_node_def handleAdvance_malformed actions_handleAdvance_def parse_malformed)

end
